theory Spec2Isabelle
  imports Complex_Main "HOL-Library.AList"
begin

section \<open>JavaScript values\<close>

text \<open>
  The server stores and forwards what \<^verbatim>\<open>JSON.parse\<close> and the request body hand to it.
  A value is one of the JSON shapes, or \<^verbatim>\<open>undefined\<close> (a member that is absent).
  Numbers are only stored and compared, never computed with, so a rational stands for the
  number read. A string is the list of its code units, each a \<open>char\<close>. An object is
  the list of its members, read like an association list: the first binding of a key is
  the member.
\<close>

datatype jsval =
    JUndefined
  | JNull
  | JBool bool
  | JNum rat
  | JStr string
  | JArr "jsval list"
  | JObj "(string \<times> jsval) list"

datatype js_error = TypeError

text \<open>
  Reading the members \<^verbatim>\<open>data.type\<close> and \<^verbatim>\<open>data.data\<close>: on \<^verbatim>\<open>null\<close> and
  \<^verbatim>\<open>undefined\<close> the read raises a TypeError; on an object it is the member, or
  \<^verbatim>\<open>undefined\<close>; on every other value it is \<^verbatim>\<open>undefined\<close> (no built-in
  prototype has a property of either name).
\<close>

fun get_field :: "jsval \<Rightarrow> string \<Rightarrow> js_error + jsval" where
  "get_field JUndefined k = Inl TypeError"
| "get_field JNull k = Inl TypeError"
| "get_field (JObj kvs) k = Inr (case map_of kvs k of Some v \<Rightarrow> v | None \<Rightarrow> JUndefined)"
| "get_field v k = Inr JUndefined"

text \<open>
  Whether the conversion to a string that a template literal applies to a value returns.
  For an object it calls the property \<^verbatim>\<open>toString\<close>, then \<^verbatim>\<open>valueOf\<close>: a member
  of a parsed object is never a function and hides the method inherited from
  \<^verbatim>\<open>Object.prototype\<close>, and the inherited \<^verbatim>\<open>valueOf\<close> returns the object itself,
  so an object with a member named \<^verbatim>\<open>toString\<close> has no conversion: a TypeError is
  raised. An array is joined: each element other than \<^verbatim>\<open>null\<close> is converted in turn.
\<close>

fun ToString_defined :: "jsval \<Rightarrow> bool" where
  "ToString_defined (JObj kvs) = (map_of kvs ''toString'' = None)"
| "ToString_defined (JArr xs) = (\<forall>x \<in> set xs. ToString_defined x)"
| "ToString_defined v = True"

text \<open>The decimal name of an array index.\<close>

fun show_nat :: "nat \<Rightarrow> string" where
  "show_nat n =
     (if n < 10 then [''0123456789'' ! n]
      else show_nat (n div 10) @ [''0123456789'' ! (n mod 10)])"

declare show_nat.simps [simp del]

text \<open>
  The own enumerable properties that \<^verbatim>\<open>Object.assign\<close> copies from its source:
  the members of an object, the elements of an array under their indices, the characters
  of a string under their indices; \<^verbatim>\<open>undefined\<close> and \<^verbatim>\<open>null\<close> are skipped,
  and a boolean or a number has none.
\<close>

fun own_enumerable :: "jsval \<Rightarrow> (string \<times> jsval) list" where
  "own_enumerable (JObj kvs) = AList.clearjunk kvs"
| "own_enumerable (JArr xs) = zip (map show_nat [0..<length xs]) xs"
| "own_enumerable (JStr s) = zip (map show_nat [0..<length s]) (map (\<lambda>c. JStr [c]) s)"
| "own_enumerable v = []"

section \<open>The object \<open>deviceStates\<close>\<close>

text \<open>
  \<^verbatim>\<open>deviceStates\<close> is an ordinary object: its own properties and its prototype.
  The own properties are kept in creation order (JavaScript lists keys that are array
  indices first; only the order of the members in a serialised snapshot depends on it, and
  no property below does). The prototype starts as \<^verbatim>\<open>Object.prototype\<close>; assigning
  the key \<^verbatim>\<open>__proto__\<close> runs the setter that \<^verbatim>\<open>Object.prototype\<close> defines, which
  replaces the prototype by an object, an array or \<^verbatim>\<open>null\<close> and ignores every other
  value.
\<close>

datatype prototype =
    ObjectPrototype
  | NullPrototype
  | ObjectValue "(string \<times> jsval) list"
  | ArrayValue "jsval list"

record js_object =
  props :: "(string \<times> jsval) list"
  proto :: prototype

definition has_own :: "js_object \<Rightarrow> string \<Rightarrow> bool" where
  "has_own obj k = (map_of (props obj) k \<noteq> None)"

text \<open>
  Whether looking \<^verbatim>\<open>__proto__\<close> up along the prototype chain ends at the accessor of
  \<^verbatim>\<open>Object.prototype\<close>: a parsed object that has a member of that name holds it as a
  data property, which hides the accessor; an array has no such element.
\<close>

fun inherits_proto_accessor :: "prototype \<Rightarrow> bool" where
  "inherits_proto_accessor ObjectPrototype = True"
| "inherits_proto_accessor NullPrototype = False"
| "inherits_proto_accessor (ObjectValue kvs) = (map_of kvs ''__proto__'' = None)"
| "inherits_proto_accessor (ArrayValue xs) = True"

fun proto_setter :: "js_object \<Rightarrow> jsval \<Rightarrow> js_object" where
  "proto_setter obj JNull = obj\<lparr>proto := NullPrototype\<rparr>"
| "proto_setter obj (JObj kvs) = obj\<lparr>proto := ObjectValue kvs\<rparr>"
| "proto_setter obj (JArr xs) = obj\<lparr>proto := ArrayValue xs\<rparr>"
| "proto_setter obj v = obj"

text \<open>
  The assignment \<^verbatim>\<open>obj[k] = v\<close>: an own property is overwritten in place; otherwise
  \<^verbatim>\<open>__proto__\<close> goes to the inherited setter when the chain reaches it; every other
  key (inherited properties are writable data properties) becomes a new own property.
\<close>

definition set_property :: "js_object \<Rightarrow> string \<Rightarrow> jsval \<Rightarrow> js_object" where
  "set_property obj k v =
     (if has_own obj k then obj\<lparr>props := AList.update k v (props obj)\<rparr>
      else if k = ''__proto__'' \<and> inherits_proto_accessor (proto obj) then proto_setter obj v
      else obj\<lparr>props := AList.update k v (props obj)\<rparr>)"

definition Object_assign :: "js_object \<Rightarrow> jsval \<Rightarrow> js_object" where
  "Object_assign target source =
     fold (\<lambda>(k, v) obj. set_property obj k v) (own_enumerable source) target"

text \<open>
  The call \<^verbatim>\<open>obj.hasOwnProperty(k)\<close> first reads the property \<^verbatim>\<open>hasOwnProperty\<close>
  of \<^verbatim>\<open>obj\<close> itself. It is the built-in method only when no own property and no
  member of a parsed prototype has that name and the chain reaches
  \<^verbatim>\<open>Object.prototype\<close>; any other value found is not a function, and nothing is found
  under a \<^verbatim>\<open>null\<close> prototype: the call raises a TypeError.
\<close>

fun inherits_hasOwnProperty :: "prototype \<Rightarrow> bool" where
  "inherits_hasOwnProperty ObjectPrototype = True"
| "inherits_hasOwnProperty NullPrototype = False"
| "inherits_hasOwnProperty (ObjectValue kvs) = (map_of kvs ''hasOwnProperty'' = None)"
| "inherits_hasOwnProperty (ArrayValue xs) = True"

definition hasOwnProperty :: "js_object \<Rightarrow> string \<Rightarrow> js_error + bool" where
  "hasOwnProperty obj k =
     (if \<not> has_own obj ''hasOwnProperty'' \<and> inherits_hasOwnProperty (proto obj)
      then Inr (has_own obj k)
      else Inl TypeError)"

section \<open>Connections, frames and the server state\<close>

type_synonym conn = nat

datatype ready_state = OPEN | CLOSING | CLOSED

record device =
  dev_id :: string
  dev_name :: string
  dev_type :: string
  location :: string
  online :: bool
  lastSeen :: "string option"

text \<open>
  A frame is the object handed to \<^verbatim>\<open>JSON.stringify\<close>, by its \<^verbatim>\<open>type\<close> tag and
  remaining members in the order of the source. A member whose value is \<^verbatim>\<open>undefined\<close>
  is left out of the serialised text.
\<close>

datatype frame =
    Config string string
  | Command string jsval string
  | StateUpdate string string jsval string
  | SensorUpdate string jsval string
  | DeviceDisconnected string string
  | InitialData "device list" "(string \<times> jsval) list" string

datatype listener = DeviceListeners string | WebListeners string

record websocket =
  readyState :: ready_state
  sent :: "frame list"
  closeCall :: "(nat \<times> string) option"
  listeners :: "listener option"

datatype log_line =
    LogWebCommand string string jsval
  | LogDeviceConnected string
  | LogData string jsval
  | LogParseError
  | LogDeviceDisconnected string
  | LogWebConnected string
  | LogWebDisconnected string

record server =
  iotDevices :: "(string \<times> conn) list"
  webClients :: "(string \<times> conn) list"
  deviceStates :: js_object
  registeredDevices :: "device list"
  sockets :: "conn \<Rightarrow> websocket"
  console :: "log_line list"

definition new_socket :: websocket where
  "new_socket = \<lparr>readyState = OPEN, sent = [], closeCall = None, listeners = None\<rparr>"

definition no_socket :: websocket where
  "no_socket = \<lparr>readyState = CLOSED, sent = [], closeCall = None, listeners = None\<rparr>"

text \<open>The module's top-level state; \<open>t0\<close> is the time the module is loaded.\<close>

definition init :: "string \<Rightarrow> server" where
  "init t0 =
     \<lparr>iotDevices = [],
      webClients = [],
      deviceStates =
        \<lparr>props =
           [(''temperature'', JNum (49 / 2)),
            (''humidity'', JNum 68),
            (''led'', JBool False),
            (''pump'', JBool False),
            (''fanSpeed'', JNum 45),
            (''power'', JNum 156),
            (''lastUpdate'', JStr t0)],
         proto = ObjectPrototype\<rparr>,
      registeredDevices =
        [\<lparr>dev_id = ''device_001'', dev_name = ''Kitchen Sensor'', dev_type = ''sensor'',
          location = ''Kitchen'', online = False, lastSeen = None\<rparr>,
         \<lparr>dev_id = ''device_002'', dev_name = ''LED Controller'', dev_type = ''actuator'',
          location = ''Living Room'', online = False, lastSeen = None\<rparr>],
      sockets = (\<lambda>_. no_socket),
      console = []\<rparr>"

subsection \<open>The transport's operations on a socket\<close>

definition console_log :: "server \<Rightarrow> log_line \<Rightarrow> server" where
  "console_log s l = s\<lparr>console := console s @ [l]\<rparr>"

text \<open>\<^verbatim>\<open>ws.send\<close>: the frame reaches the peer of an open socket; on a socket that is
  closing or closed nothing is delivered.\<close>

definition ws_send :: "server \<Rightarrow> conn \<Rightarrow> frame \<Rightarrow> server" where
  "ws_send s ws f =
     (if readyState (sockets s ws) = OPEN
      then s\<lparr>sockets := (sockets s)(ws := (sockets s ws)\<lparr>sent := sent (sockets s ws) @ [f]\<rparr>)\<rparr>
      else s)"

definition ws_close :: "server \<Rightarrow> conn \<Rightarrow> nat \<Rightarrow> string \<Rightarrow> server" where
  "ws_close s ws code reason =
     (if readyState (sockets s ws) = OPEN
      then s\<lparr>sockets := (sockets s)(ws := (sockets s ws)\<lparr>readyState := CLOSING,
                                                      closeCall := Some (code, reason)\<rparr>)\<rparr>
      else s)"

definition ws_on :: "server \<Rightarrow> conn \<Rightarrow> listener \<Rightarrow> server" where
  "ws_on s ws l = s\<lparr>sockets := (sockets s)(ws := (sockets s ws)\<lparr>listeners := Some l\<rparr>)\<rparr>"

subsection \<open>\<open>broadcastToWebClients\<close>\<close>

definition broadcastToWebClients :: "server \<Rightarrow> frame \<Rightarrow> server" where
  "broadcastToWebClients s data =
     fold (\<lambda>(clientId, client) s'.
             if readyState (sockets s' client) = OPEN then ws_send s' client data else s')
          (webClients s) s"

definition broadcastToIotDevices :: "server \<Rightarrow> frame \<Rightarrow> server" where
  "broadcastToIotDevices s data =
     fold (\<lambda>(deviceId, device) s'.
             if readyState (sockets s' device) = OPEN then ws_send s' device data else s')
          (iotDevices s) s"

subsection \<open>The device registry\<close>

text \<open>\<^verbatim>\<open>registeredDevices.find(d => d.id === deviceId)\<close>, followed by the two
  assignments to the record found; nothing happens when none is found.\<close>

fun mark_device :: "device list \<Rightarrow> string \<Rightarrow> bool \<Rightarrow> string \<Rightarrow> device list" where
  "mark_device [] deviceId b now = []"
| "mark_device (d # ds) deviceId b now =
     (if dev_id d = deviceId then d\<lparr>online := b, lastSeen := Some now\<rparr> # ds
      else d # mark_device ds deviceId b now)"

section \<open>The handlers\<close>

subsection \<open>\<open>app.post('/api/devices/:deviceId/control')\<close>\<close>

datatype body = Success string string jsval | Failure string

type_synonym response = "nat \<times> body"

text \<open>
  The route's handler, with the command name a string. \<open>t1\<close> and \<open>t2\<close> are the two
  readings of the clock. The handler has no \<^verbatim>\<open>try\<close>: an exception leaves it where
  it is raised, after the effects that came before, and no response is built by the
  handler (\<open>Inl\<close>). The first statement logs a template literal that holds the value, so
  a value without a conversion to a string raises there, before anything else is done.
\<close>

definition post_control ::
  "server \<Rightarrow> string \<Rightarrow> string \<Rightarrow> jsval \<Rightarrow> string \<Rightarrow> string \<Rightarrow> server \<times> (js_error + response)" where
  "post_control s deviceId command value t1 t2 =
     (if \<not> ToString_defined value then (s, Inl TypeError)
      else
       (let s0 = console_log s (LogWebCommand deviceId command value);
            not_connected = (s0, Inr (404, Failure (''Device '' @ deviceId @ '' is not connected'')))
        in case map_of (iotDevices s0) deviceId of
             None \<Rightarrow> not_connected
           | Some deviceWs \<Rightarrow>
               if readyState (sockets s0 deviceWs) = OPEN then
                 (let s1 = ws_send s0 deviceWs (Command command value t1)
                  in case hasOwnProperty (deviceStates s1) command of
                       Inl e \<Rightarrow> (s1, Inl e)
                     | Inr b \<Rightarrow>
                         (let s2 = (if b then s1\<lparr>deviceStates :=
                                                   set_property (deviceStates s1) command value\<rparr>
                                    else s1);
                              s3 = broadcastToWebClients s2 (StateUpdate deviceId command value t2)
                          in (s3, Inr (200, Success (''Command sent to '' @ deviceId) command value))))
               else not_connected))"

text \<open>\<open>app.get('/api/sensors')\<close> answers with the own properties of \<open>deviceStates\<close>.\<close>

definition get_sensors :: "server \<Rightarrow> (string \<times> jsval) list" where
  "get_sensors s = props (deviceStates s)"

subsection \<open>\<open>wss.on('connection')\<close>\<close>

text \<open>The two statements that store a sensor report: \<^verbatim>\<open>Object.assign(deviceStates,
  data.data)\<close>, then the assignment of the clock's reading to \<^verbatim>\<open>lastUpdate\<close>.\<close>

definition merge_sensor_data :: "js_object \<Rightarrow> jsval \<Rightarrow> string \<Rightarrow> js_object" where
  "merge_sensor_data obj payload now =
     set_property (Object_assign obj payload) ''lastUpdate'' (JStr now)"

text \<open>The listener of \<^verbatim>\<open>message\<close> on a device's socket; \<open>parsed\<close> is what
  \<^verbatim>\<open>JSON.parse(message)\<close> returns, \<open>None\<close> when it raises. Whatever is raised inside
  the \<^verbatim>\<open>try\<close> block ends in the same \<^verbatim>\<open>catch\<close>.\<close>

definition on_device_message ::
  "server \<Rightarrow> string \<Rightarrow> jsval option \<Rightarrow> string \<Rightarrow> string \<Rightarrow> server" where
  "on_device_message s deviceId parsed t1 t2 =
     (case parsed of
        None \<Rightarrow> console_log s LogParseError
      | Some data \<Rightarrow>
          (let s1 = console_log s (LogData deviceId data)
           in case get_field data ''type'' of
                Inl e \<Rightarrow> console_log s1 LogParseError
              | Inr ty \<Rightarrow>
                  if ty = JStr ''sensorData'' then
                    (case get_field data ''data'' of
                       Inl e \<Rightarrow> console_log s1 LogParseError
                     | Inr payload \<Rightarrow>
                         (let s2 = s1\<lparr>deviceStates :=
                                      merge_sensor_data (deviceStates s1) payload t1\<rparr>
                          in broadcastToWebClients s2 (SensorUpdate deviceId payload t2)))
                  else s1))"

text \<open>The listener of \<^verbatim>\<open>close\<close> on a device's socket.\<close>

definition on_device_close :: "server \<Rightarrow> string \<Rightarrow> string \<Rightarrow> string \<Rightarrow> server" where
  "on_device_close s deviceId t1 t2 =
     (let s1 = console_log s (LogDeviceDisconnected deviceId);
          s2 = s1\<lparr>iotDevices := AList.delete deviceId (iotDevices s1)\<rparr>;
          s3 = s2\<lparr>registeredDevices := mark_device (registeredDevices s2) deviceId False t1\<rparr>
      in broadcastToWebClients s3 (DeviceDisconnected deviceId t2))"

text \<open>The listener of \<^verbatim>\<open>close\<close> on a dashboard's socket.\<close>

definition on_web_close :: "server \<Rightarrow> string \<Rightarrow> server" where
  "on_web_close s clientId =
     (let s1 = console_log s (LogWebDisconnected clientId)
      in s1\<lparr>webClients := AList.delete clientId (webClients s1)\<rparr>)"

text \<open>
  The test \<^verbatim>\<open>clientType === 'device' && deviceId\<close>: the query parameter is
  \<^verbatim>\<open>null\<close> when absent (\<open>None\<close>), and the empty string is falsy too.
\<close>

fun device_request :: "string option \<Rightarrow> string option \<Rightarrow> string option" where
  "device_request (Some clientType) (Some deviceId) =
     (if clientType = ''device'' \<and> deviceId \<noteq> [] then Some deviceId else None)"
| "device_request clientType deviceId = None"

text \<open>
  The listener of \<^verbatim>\<open>connection\<close>: \<open>ws\<close> is the socket, \<open>clientType\<close> and
  \<open>deviceId\<close> the two query parameters, \<open>clientId\<close> what the random generator gives a
  dashboard, \<open>now\<close> the clock.
\<close>

definition on_connection ::
  "server \<Rightarrow> conn \<Rightarrow> string option \<Rightarrow> string option \<Rightarrow> string \<Rightarrow> string \<Rightarrow> server" where
  "on_connection s ws clientType deviceId clientId now =
     (case device_request clientType deviceId of
        Some i \<Rightarrow>
          (let s1 = console_log s (LogDeviceConnected i);
               s2 = s1\<lparr>iotDevices := AList.update i ws (iotDevices s1)\<rparr>;
               s3 = s2\<lparr>registeredDevices := mark_device (registeredDevices s2) i True now\<rparr>;
               s4 = ws_send s3 ws (Config ''Connected to cloud server'' i)
           in ws_on s4 ws (DeviceListeners i))
      | None \<Rightarrow>
          if clientType = Some ''web'' then
            (let s1 = console_log s (LogWebConnected clientId);
                 s2 = s1\<lparr>webClients := AList.update clientId ws (webClients s1)\<rparr>;
                 s3 = ws_send s2 ws
                        (InitialData (registeredDevices s2) (props (deviceStates s2)) now)
             in ws_on s3 ws (WebListeners clientId))
          else ws_close s ws 1008 ''Invalid client type'')"

subsection \<open>Events of the transport\<close>

text \<open>
  The transport creates a socket for every connection and hands it to the listener of
  \<^verbatim>\<open>connection\<close>; an inbound frame and the end of a connection run the listeners
  registered on that socket, if any. The socket is closed when \<^verbatim>\<open>close\<close> is emitted.
\<close>

definition accept ::
  "server \<Rightarrow> conn \<Rightarrow> string option \<Rightarrow> string option \<Rightarrow> string \<Rightarrow> string \<Rightarrow> server" where
  "accept s ws clientType deviceId clientId now =
     on_connection (s\<lparr>sockets := (sockets s)(ws := new_socket)\<rparr>) ws clientType deviceId clientId now"

definition emit_message :: "server \<Rightarrow> conn \<Rightarrow> jsval option \<Rightarrow> string \<Rightarrow> string \<Rightarrow> server" where
  "emit_message s ws parsed t1 t2 =
     (case listeners (sockets s ws) of
        Some (DeviceListeners deviceId) \<Rightarrow> on_device_message s deviceId parsed t1 t2
      | _ \<Rightarrow> s)"

definition emit_close :: "server \<Rightarrow> conn \<Rightarrow> string \<Rightarrow> string \<Rightarrow> server" where
  "emit_close s ws t1 t2 =
     (let s' = s\<lparr>sockets := (sockets s)(ws := (sockets s ws)\<lparr>readyState := CLOSED\<rparr>)\<rparr>
      in case listeners (sockets s ws) of
           Some (DeviceListeners deviceId) \<Rightarrow> on_device_close s' deviceId t1 t2
         | Some (WebListeners clientId) \<Rightarrow> on_web_close s' clientId
         | None \<Rightarrow> s')"

text \<open>A socket the transport has not handed out yet.\<close>

definition fresh :: "server \<Rightarrow> conn \<Rightarrow> bool" where
  "fresh s ws \<longleftrightarrow> sockets s ws = no_socket"

text \<open>
  One event: a connection on a new socket, an inbound frame or the end of a connection
  on a socket that is not closed yet, the peer starting to close an open socket, or a
  request to the control route.
\<close>

inductive step :: "server \<Rightarrow> server \<Rightarrow> bool" where
  connection: "fresh s ws \<Longrightarrow> step s (accept s ws clientType deviceId clientId now)"
| message: "readyState (sockets s ws) \<noteq> CLOSED \<Longrightarrow> step s (emit_message s ws parsed t1 t2)"
| closing: "readyState (sockets s ws) = OPEN \<Longrightarrow>
     step s (s\<lparr>sockets := (sockets s)(ws := (sockets s ws)\<lparr>readyState := CLOSING\<rparr>)\<rparr>)"
| closed: "readyState (sockets s ws) \<noteq> CLOSED \<Longrightarrow> step s (emit_close s ws t1 t2)"
| control: "step s (fst (post_control s deviceId command value t1 t2))"

text \<open>The states the server can be in: from the initial one, by any events in any order.\<close>

definition reachable :: "server \<Rightarrow> bool" where
  "reachable s \<longleftrightarrow> (\<exists>t0. step\<^sup>*\<^sup>* (init t0) s)"

section \<open>Notions used to state the properties\<close>

text \<open>\<^verbatim>\<open>registeredDevices.find(d => d.id === deviceId)\<close>.\<close>

definition find_device :: "device list \<Rightarrow> string \<Rightarrow> device option" where
  "find_device ds deviceId = List.find (\<lambda>d. dev_id d = deviceId) ds"

text \<open>The value of an own property of \<open>deviceStates\<close>, as a snapshot shows it.\<close>

definition snapshot :: "server \<Rightarrow> string \<Rightarrow> jsval option" where
  "snapshot s k = map_of (get_sensors s) k"

text \<open>A sequence of sensor reports stored one after the other, each with its clock reading.\<close>

definition merge_all :: "js_object \<Rightarrow> (jsval \<times> string) list \<Rightarrow> js_object" where
  "merge_all obj calls = fold (\<lambda>(payload, now) obj'. merge_sensor_data obj' payload now) calls obj"

text \<open>
  What the specification says of a merge, on a plain mapping from field names to values:
  every key of the report is inserted or overwritten, then \<open>lastUpdate\<close> is the time of
  the merge.
\<close>

definition spec_merge :: "(string \<rightharpoonup> jsval) \<Rightarrow> (string \<times> jsval) list \<times> string \<Rightarrow> (string \<rightharpoonup> jsval)" where
  "spec_merge m call = (m ++ map_of (fst call))(''lastUpdate'' \<mapsto> JStr (snd call))"

definition spec_merge_all ::
  "(string \<rightharpoonup> jsval) \<Rightarrow> ((string \<times> jsval) list \<times> string) list \<Rightarrow> (string \<rightharpoonup> jsval)" where
  "spec_merge_all m calls = fold (\<lambda>call m'. spec_merge m' call) calls m"

text \<open>The socket \<open>c\<close> after the frame \<open>f\<close> was pushed to it.\<close>

definition pushed :: "websocket \<Rightarrow> frame \<Rightarrow> websocket" where
  "pushed w f = w\<lparr>sent := sent w @ [f]\<rparr>"

text \<open>The dashboards' sockets that are open: the receivers of a broadcast.\<close>

definition open_dashboard :: "server \<Rightarrow> conn \<Rightarrow> bool" where
  "open_dashboard s c \<longleftrightarrow> c \<in> snd ` set (webClients s) \<and> readyState (sockets s c) = OPEN"

text \<open>
  What holds of the registries in every state the server can be in: a registered socket
  carries the listeners of its registration, no socket is registered under two keys, and
  no key is registered twice.
\<close>

definition registry_inv :: "server \<Rightarrow> bool" where
  "registry_inv s \<longleftrightarrow>
     (\<forall>(k, c) \<in> set (iotDevices s). \<exists>i. listeners (sockets s c) = Some (DeviceListeners i)) \<and>
     (\<forall>(k, c) \<in> set (webClients s). \<exists>i. listeners (sockets s c) = Some (WebListeners i)) \<and>
     distinct (map snd (webClients s)) \<and>
     distinct (map fst (webClients s)) \<and>
     distinct (map snd (iotDevices s)) \<and>
     distinct (map fst (iotDevices s))"

text \<open>A socket that was handed out and is in no registry: it took part in a connection
  that was rejected, replaced or ended. A socket handed out has listeners, or was closed by
  the server.\<close>

definition retired :: "server \<Rightarrow> conn \<Rightarrow> bool" where
  "retired s ws \<longleftrightarrow>
     (listeners (sockets s ws) \<noteq> None \<or> closeCall (sockets s ws) \<noteq> None) \<and>
     ws \<notin> snd ` set (iotDevices s) \<and> ws \<notin> snd ` set (webClients s)"

section \<open>Scenarios\<close>

text \<open>
  A few runs of the server, used to exercise the properties below: the device
  \<open>device_001\<close> connects on socket 0; a dashboard connects on socket 1; a second
  dashboard connects on socket 2 and its peer starts to close; the device then reports a
  reading whose only field is named \<open>hasOwnProperty\<close>. In \<open>scn_device_closing\<close> the
  device's peer has started to close instead; in \<open>scn_only_dashboard\<close> a dashboard
  is the first to connect. In \<open>scn_replaced\<close> a second device has connected on socket 2
  under the identity \<open>device_001\<close>, and in \<open>scn_evicted\<close> the first device's
  connection on socket 0 has ended after that. \<open>unprintable\<close> is a command value that
  has no conversion to a string.
\<close>

definition scn_device :: server where
  "scn_device = accept (init ''t0'') 0 (Some ''device'') (Some ''device_001'') ''-'' ''t1''"

definition scn_only_dashboard :: server where
  "scn_only_dashboard = accept (init ''t0'') 1 (Some ''web'') None ''k3x9'' ''t1''"

definition scn_device_closing :: server where
  "scn_device_closing =
     scn_device\<lparr>sockets := (sockets scn_device)(0 := (sockets scn_device 0)\<lparr>readyState := CLOSING\<rparr>)\<rparr>"

definition scn_dashboard :: server where
  "scn_dashboard = accept scn_device 1 (Some ''web'') None ''k3x9'' ''t2''"

definition scn_two_dashboards :: server where
  "scn_two_dashboards =
     (let s = accept scn_dashboard 2 (Some ''web'') None ''q7m1'' ''t3''
      in s\<lparr>sockets := (sockets s)(2 := (sockets s 2)\<lparr>readyState := CLOSING\<rparr>)\<rparr>)"

definition scn_replaced :: server where
  "scn_replaced = accept scn_dashboard 2 (Some ''device'') (Some ''device_001'') ''-'' ''t3''"

definition scn_evicted :: server where
  "scn_evicted = emit_close scn_replaced 0 ''t4'' ''t5''"

definition unprintable :: jsval where
  "unprintable = JObj [(''toString'', JNum 1)]"

definition shadowing_report :: jsval where
  "shadowing_report =
     JObj [(''type'', JStr ''sensorData''), (''data'', JObj [(''hasOwnProperty'', JNum 1)])]"

definition scn_shadowed :: server where
  "scn_shadowed = emit_message scn_dashboard 0 (Some shadowing_report) ''t3'' ''t4''"

section \<open>Auxiliary facts\<close>

subsection \<open>Fields that an operation leaves alone\<close>

lemma console_log_fields [simp]:
  "iotDevices (console_log s l) = iotDevices s"
  "webClients (console_log s l) = webClients s"
  "deviceStates (console_log s l) = deviceStates s"
  "registeredDevices (console_log s l) = registeredDevices s"
  "sockets (console_log s l) = sockets s"
  "console (console_log s l) = console s @ [l]"
  by (simp_all add: console_log_def)

lemma ws_send_fields [simp]:
  "iotDevices (ws_send s ws f) = iotDevices s"
  "webClients (ws_send s ws f) = webClients s"
  "deviceStates (ws_send s ws f) = deviceStates s"
  "registeredDevices (ws_send s ws f) = registeredDevices s"
  "console (ws_send s ws f) = console s"
  by (simp_all add: ws_send_def)

lemma ws_send_sockets:
  "sockets (ws_send s ws f) c =
     (if c = ws \<and> readyState (sockets s ws) = OPEN then pushed (sockets s ws) f else sockets s c)"
  by (simp add: ws_send_def pushed_def)

lemma ws_on_fields [simp]:
  "iotDevices (ws_on s ws l) = iotDevices s"
  "webClients (ws_on s ws l) = webClients s"
  "deviceStates (ws_on s ws l) = deviceStates s"
  "registeredDevices (ws_on s ws l) = registeredDevices s"
  "console (ws_on s ws l) = console s"
  "sockets (ws_on s ws l) = (sockets s)(ws := (sockets s ws)\<lparr>listeners := Some l\<rparr>)"
  by (simp_all add: ws_on_def)

lemma ws_close_fields [simp]:
  "iotDevices (ws_close s ws c r) = iotDevices s"
  "webClients (ws_close s ws c r) = webClients s"
  "deviceStates (ws_close s ws c r) = deviceStates s"
  "registeredDevices (ws_close s ws c r) = registeredDevices s"
  "console (ws_close s ws c r) = console s"
  by (simp_all add: ws_close_def)

lemma pushed_fields [simp]:
  "readyState (pushed w f) = readyState w"
  "listeners (pushed w f) = listeners w"
  "closeCall (pushed w f) = closeCall w"
  "sent (pushed w f) = sent w @ [f]"
  by (simp_all add: pushed_def)

subsection \<open>Broadcast\<close>

lemma broadcast_fold_fields:
  "iotDevices (fold (\<lambda>(clientId, client) s'.
       if readyState (sockets s' client) = OPEN then ws_send s' client f else s') cs s) = iotDevices s \<and>
   webClients (fold (\<lambda>(clientId, client) s'.
       if readyState (sockets s' client) = OPEN then ws_send s' client f else s') cs s) = webClients s \<and>
   deviceStates (fold (\<lambda>(clientId, client) s'.
       if readyState (sockets s' client) = OPEN then ws_send s' client f else s') cs s) = deviceStates s \<and>
   registeredDevices (fold (\<lambda>(clientId, client) s'.
       if readyState (sockets s' client) = OPEN then ws_send s' client f else s') cs s) = registeredDevices s \<and>
   console (fold (\<lambda>(clientId, client) s'.
       if readyState (sockets s' client) = OPEN then ws_send s' client f else s') cs s) = console s"
  by (induction cs arbitrary: s) (auto split: prod.splits)

lemma broadcast_fields [simp]:
  "iotDevices (broadcastToWebClients s f) = iotDevices s"
  "webClients (broadcastToWebClients s f) = webClients s"
  "deviceStates (broadcastToWebClients s f) = deviceStates s"
  "registeredDevices (broadcastToWebClients s f) = registeredDevices s"
  "console (broadcastToWebClients s f) = console s"
  by (simp_all add: broadcastToWebClients_def broadcast_fold_fields)

lemma broadcast_fold_sockets:
  "distinct (map snd cs) \<Longrightarrow>
   sockets (fold (\<lambda>(clientId, client) s'.
       if readyState (sockets s' client) = OPEN then ws_send s' client f else s') cs s) c =
     (if c \<in> snd ` set cs \<and> readyState (sockets s c) = OPEN then pushed (sockets s c) f
      else sockets s c)"
proof (induction cs arbitrary: s)
  case Nil
  then show ?case by simp
next
  case (Cons p cs)
  obtain k h where p: "p = (k, h)" by (cases p)
  from Cons.prems have d: "distinct (map snd cs)" and h: "h \<notin> snd ` set cs"
    by (auto simp: p)
  show ?case
    using h by (auto simp: p Cons.IH [OF d] ws_send_sockets)
qed

lemma broadcast_sockets:
  "distinct (map snd (webClients s)) \<Longrightarrow>
   sockets (broadcastToWebClients s f) c =
     (if open_dashboard s c then pushed (sockets s c) f else sockets s c)"
  by (simp add: broadcastToWebClients_def broadcast_fold_sockets open_dashboard_def)

lemma broadcast_sockets_other:
  "c \<notin> snd ` set (webClients s) \<Longrightarrow> sockets (broadcastToWebClients s f) c = sockets s c"
proof -
  have "c \<notin> snd ` set cs \<Longrightarrow>
        sockets (fold (\<lambda>(clientId, client) s'.
          if readyState (sockets s' client) = OPEN then ws_send s' client f else s') cs s) c
        = sockets s c" for cs s
    by (induction cs arbitrary: s) (auto simp: ws_send_sockets)
  then show "c \<notin> snd ` set (webClients s) \<Longrightarrow> ?thesis"
    by (simp add: broadcastToWebClients_def)
qed

lemma broadcast_listeners [simp]:
  "listeners (sockets (broadcastToWebClients s f) c) = listeners (sockets s c)"
proof -
  have "listeners (sockets (fold (\<lambda>(clientId, client) s'.
          if readyState (sockets s' client) = OPEN then ws_send s' client f else s') cs s) c)
        = listeners (sockets s c)" for cs s
    by (induction cs arbitrary: s) (auto simp: ws_send_sockets)
  then show ?thesis by (simp add: broadcastToWebClients_def)
qed

lemma broadcast_readyState [simp]:
  "readyState (sockets (broadcastToWebClients s f) c) = readyState (sockets s c)"
proof -
  have "readyState (sockets (fold (\<lambda>(clientId, client) s'.
          if readyState (sockets s' client) = OPEN then ws_send s' client f else s') cs s) c)
        = readyState (sockets s c)" for cs s
    by (induction cs arbitrary: s) (auto simp: ws_send_sockets)
  then show ?thesis by (simp add: broadcastToWebClients_def)
qed

subsection \<open>The object\<close>

lemma map_of_set_property:
  "k' \<noteq> ''__proto__'' \<Longrightarrow>
   map_of (props (set_property obj k v)) k' = ((map_of (props obj))(k \<mapsto> v)) k'"
  by (cases v) (auto simp: set_property_def AList.update_conv')

lemma has_own_set_property:
  "has_own obj k' \<Longrightarrow> has_own (set_property obj k v) k'"
  by (cases v) (auto simp: set_property_def has_own_def AList.update_conv')

lemma set_property_own:
  "has_own obj k \<Longrightarrow> set_property obj k v = obj\<lparr>props := AList.update k v (props obj)\<rparr>"
  by (simp add: set_property_def)

lemma set_property_plain:
  "k \<noteq> ''__proto__'' \<Longrightarrow> set_property obj k v = obj\<lparr>props := AList.update k v (props obj)\<rparr>"
  by (simp add: set_property_def)

lemma fold_set_property_map_of:
  "k' \<noteq> ''__proto__'' \<Longrightarrow>
   map_of (props (fold (\<lambda>(k, v) obj. set_property obj k v) kvs obj)) k' =
     (map_of (props obj) ++ map_of (rev kvs)) k'"
proof (induction kvs arbitrary: obj)
  case Nil
  then show ?case by simp
next
  case (Cons p kvs)
  obtain k v where p: "p = (k, v)" by (cases p)
  show ?case
    using Cons.prems
    by (simp add: p Cons.IH map_of_set_property map_add_def split: option.splits)
qed

lemma fold_set_property_has_own:
  "has_own obj k' \<Longrightarrow> has_own (fold (\<lambda>(k, v) obj. set_property obj k v) kvs obj) k'"
  by (induction kvs arbitrary: obj) (auto simp: has_own_set_property)

lemma map_of_rev_distinct:
  "distinct (map fst xs) \<Longrightarrow> map_of (rev xs) = map_of xs"
proof (induction xs)
  case Nil
  then show ?case by simp
next
  case (Cons p xs)
  then have "fst p \<notin> dom (map_of xs)"
    by (simp add: dom_map_of_conv_image_fst)
  then have "map_of xs (fst p) = None" by blast
  with Cons show ?case
    by (cases p) (auto simp: map_of_append map_add_def fun_eq_iff split: option.splits)
qed

lemma map_of_Object_assign:
  "k \<noteq> ''__proto__'' \<Longrightarrow>
   map_of (props (Object_assign obj (JObj kvs))) k = (map_of (props obj) ++ map_of kvs) k"
  by (simp add: Object_assign_def fold_set_property_map_of map_of_rev_distinct
      AList.map_of_clearjunk)

lemma has_own_Object_assign:
  "has_own obj k \<Longrightarrow> has_own (Object_assign obj payload) k"
  by (simp add: Object_assign_def fold_set_property_has_own)

lemma map_of_merge_sensor_data:
  "k \<noteq> ''__proto__'' \<Longrightarrow>
   map_of (props (merge_sensor_data obj (JObj kvs) now)) k =
     spec_merge (map_of (props obj)) (kvs, now) k"
  by (simp add: merge_sensor_data_def spec_merge_def map_of_set_property map_of_Object_assign)

lemma has_own_merge_sensor_data:
  "has_own obj k \<Longrightarrow> has_own (merge_sensor_data obj payload now) k"
  by (simp add: merge_sensor_data_def has_own_set_property has_own_Object_assign)

lemma lastUpdate_merge_sensor_data:
  "map_of (props (merge_sensor_data obj payload now)) ''lastUpdate'' = Some (JStr now)"
  by (simp add: merge_sensor_data_def map_of_set_property)

subsection \<open>Registries\<close>

lemma set_update_subset: "set (AList.update k v al) \<subseteq> insert (k, v) (set al)"
  by (induction al) auto

lemma set_delete_subset: "set (AList.delete k al) \<subseteq> set al"
  by (auto simp: AList.delete_eq)

lemma distinct_snd_update:
  "distinct (map snd al) \<Longrightarrow> v \<notin> snd ` set al \<Longrightarrow> distinct (map snd (AList.update k v al))"
proof (induction al)
  case Nil
  then show ?case by simp
next
  case (Cons p al)
  have "snd ` set (AList.update k v al) \<subseteq> insert v (snd ` set al)"
    using set_update_subset [of k v al] by force
  with Cons show ?case by (cases p) auto
qed

lemma distinct_snd_delete:
  "distinct (map snd al) \<Longrightarrow> distinct (map snd (AList.delete k al))"
  by (simp add: AList.delete_eq distinct_map_filter)

lemma mark_device_ids [simp]: "map dev_id (mark_device ds i b t) = map dev_id ds"
  by (induction ds) auto

lemma find_mark_device_same:
  "find_device (mark_device ds i b t) i =
     map_option (\<lambda>d. d\<lparr>online := b, lastSeen := Some t\<rparr>) (find_device ds i)"
  by (induction ds) (auto simp: find_device_def)

lemma find_mark_device_other:
  "j \<noteq> i \<Longrightarrow> find_device (mark_device ds i b t) j = find_device ds j"
  by (induction ds) (auto simp: find_device_def)

lemma mark_device_unknown:
  "find_device ds i = None \<Longrightarrow> mark_device ds i b t = ds"
  by (induction ds) (auto simp: find_device_def split: if_splits)

subsection \<open>What the handlers do to the registries and the listeners\<close>

lemma post_control_registries [simp]:
  "iotDevices (fst (post_control s i c v t1 t2)) = iotDevices s"
  "webClients (fst (post_control s i c v t1 t2)) = webClients s"
  "registeredDevices (fst (post_control s i c v t1 t2)) = registeredDevices s"
  by (simp_all add: post_control_def Let_def split: option.splits sum.splits)

lemma post_control_listeners [simp]:
  "listeners (sockets (fst (post_control s i c v t1 t2)) w) = listeners (sockets s w)"
  by (simp add: post_control_def Let_def ws_send_sockets split: option.splits sum.splits)

lemma post_control_closeCall [simp]:
  "closeCall (sockets (fst (post_control s i c v t1 t2)) w) = closeCall (sockets s w)"
proof -
  have b: "closeCall (sockets (broadcastToWebClients s' f) w) = closeCall (sockets s' w)" for s' f
  proof -
    have "closeCall (sockets (fold (\<lambda>(clientId, client) s'.
            if readyState (sockets s' client) = OPEN then ws_send s' client f else s') cs s') w)
          = closeCall (sockets s' w)" for cs s'
      by (induction cs arbitrary: s') (auto simp: ws_send_sockets)
    then show ?thesis by (simp add: broadcastToWebClients_def)
  qed
  show ?thesis
    by (simp add: post_control_def Let_def ws_send_sockets b split: option.splits sum.splits)
qed

lemma on_device_message_registries [simp]:
  "iotDevices (on_device_message s i p t1 t2) = iotDevices s"
  "webClients (on_device_message s i p t1 t2) = webClients s"
  "registeredDevices (on_device_message s i p t1 t2) = registeredDevices s"
  by (simp_all add: on_device_message_def Let_def split: option.splits sum.splits)

lemma on_device_message_listeners [simp]:
  "listeners (sockets (on_device_message s i p t1 t2) w) = listeners (sockets s w)"
  by (simp add: on_device_message_def Let_def split: option.splits sum.splits)

lemma emit_message_registries [simp]:
  "iotDevices (emit_message s ws p t1 t2) = iotDevices s"
  "webClients (emit_message s ws p t1 t2) = webClients s"
  "registeredDevices (emit_message s ws p t1 t2) = registeredDevices s"
  by (simp_all add: emit_message_def split: option.splits listener.splits)

lemma emit_message_listeners [simp]:
  "listeners (sockets (emit_message s ws p t1 t2) w) = listeners (sockets s w)"
  by (simp add: emit_message_def split: option.splits listener.splits)

lemma registry_inv_same:
  assumes "registry_inv s"
    and "iotDevices s' = iotDevices s" and "webClients s' = webClients s"
    and "\<And>c. listeners (sockets s' c) = listeners (sockets s c)"
  shows "registry_inv s'"
  using assms by (simp add: registry_inv_def)

lemma fresh_unregistered:
  assumes "registry_inv s" and "fresh s ws"
  shows "ws \<notin> snd ` set (iotDevices s)" and "ws \<notin> snd ` set (webClients s)"
  using assms by (auto simp: registry_inv_def fresh_def no_socket_def)

lemma registry_inv_init: "registry_inv (init t0)"
  by (simp add: registry_inv_def init_def)


lemma accept_device:
  "device_request clientType deviceId = Some i \<Longrightarrow>
   accept s ws clientType deviceId clientId now =
     s\<lparr>console := console s @ [LogDeviceConnected i],
       iotDevices := AList.update i ws (iotDevices s),
       registeredDevices := mark_device (registeredDevices s) i True now,
       sockets := (sockets s)(ws := \<lparr>readyState = OPEN,
          sent = [Config ''Connected to cloud server'' i], closeCall = None,
          listeners = Some (DeviceListeners i)\<rparr>)\<rparr>"
  by (simp add: accept_def on_connection_def Let_def console_log_def ws_send_def ws_on_def
      new_socket_def)

lemma accept_web:
  "device_request clientType deviceId = None \<Longrightarrow> clientType = Some ''web'' \<Longrightarrow>
   accept s ws clientType deviceId clientId now =
     s\<lparr>console := console s @ [LogWebConnected clientId],
       webClients := AList.update clientId ws (webClients s),
       sockets := (sockets s)(ws := \<lparr>readyState = OPEN,
          sent = [InitialData (registeredDevices s) (props (deviceStates s)) now],
          closeCall = None, listeners = Some (WebListeners clientId)\<rparr>)\<rparr>"
  by (simp add: accept_def on_connection_def Let_def console_log_def ws_send_def ws_on_def
      new_socket_def)

lemma accept_rejected:
  "device_request clientType deviceId = None \<Longrightarrow> clientType \<noteq> Some ''web'' \<Longrightarrow>
   accept s ws clientType deviceId clientId now =
     s\<lparr>sockets := (sockets s)(ws := \<lparr>readyState = CLOSING, sent = [],
          closeCall = Some (1008, ''Invalid client type''), listeners = None\<rparr>)\<rparr>"
  by (simp add: accept_def on_connection_def Let_def ws_close_def new_socket_def)

lemma in_update_cases:
  "(k, c) \<in> set (AList.update j w al) \<Longrightarrow> (k, c) = (j, w) \<or> (k, c) \<in> set al"
  using set_update_subset [of j w al] by blast

lemma in_delete_cases: "(k, c) \<in> set (AList.delete j al) \<Longrightarrow> (k, c) \<in> set al"
  using set_delete_subset [of j al] by blast

lemma registry_inv_accept:
  assumes inv: "registry_inv s" and fr: "fresh s ws"
  shows "registry_inv (accept s ws clientType deviceId clientId now)"
proof -
  note un = fresh_unregistered [OF inv fr]
  have dev: "\<And>k c. (k, c) \<in> set (iotDevices s) \<Longrightarrow>
      c \<noteq> ws \<and> (\<exists>i. listeners (sockets s c) = Some (DeviceListeners i))"
    using inv un by (force simp: registry_inv_def)
  have web: "\<And>k c. (k, c) \<in> set (webClients s) \<Longrightarrow>
      c \<noteq> ws \<and> (\<exists>i. listeners (sockets s c) = Some (WebListeners i))"
    using inv un by (force simp: registry_inv_def)
  have ds: "distinct (map snd (webClients s))" and dw: "distinct (map fst (webClients s))"
    and dd: "distinct (map fst (iotDevices s))" and di: "distinct (map snd (iotDevices s))"
    using inv by (simp_all add: registry_inv_def)
  show ?thesis
  proof (cases "device_request clientType deviceId")
    case (Some i)
    show ?thesis
      unfolding registry_inv_def accept_device [OF Some]
      using dev web ds dw dd di un
      by (auto simp: AList.distinct_update distinct_snd_update dest!: in_update_cases)
  next
    case None
    show ?thesis
    proof (cases "clientType = Some ''web''")
      case True
      show ?thesis
        unfolding registry_inv_def accept_web [OF None True]
        using dev web ds dw dd di un
        by (auto simp: AList.distinct_update distinct_snd_update dest!: in_update_cases)
    next
      case False
      show ?thesis
        unfolding registry_inv_def accept_rejected [OF None False]
        using dev web ds dw dd di by auto
    qed
  qed
qed

lemma emit_close_listeners [simp]:
  "listeners (sockets (emit_close s ws t1 t2) c) = listeners (sockets s c)"
  by (simp add: emit_close_def on_device_close_def on_web_close_def Let_def
      split: option.splits listener.splits)

lemma emit_close_iotDevices:
  "iotDevices (emit_close s ws t1 t2) =
     (case listeners (sockets s ws) of
        Some (DeviceListeners i) \<Rightarrow> AList.delete i (iotDevices s)
      | _ \<Rightarrow> iotDevices s)"
  by (simp add: emit_close_def on_device_close_def on_web_close_def Let_def
      split: option.splits listener.splits)

lemma emit_close_webClients:
  "webClients (emit_close s ws t1 t2) =
     (case listeners (sockets s ws) of
        Some (WebListeners i) \<Rightarrow> AList.delete i (webClients s)
      | _ \<Rightarrow> webClients s)"
  by (simp add: emit_close_def on_device_close_def on_web_close_def Let_def
      split: option.splits listener.splits)

lemma registry_inv_emit_close:
  assumes inv: "registry_inv s"
  shows "registry_inv (emit_close s ws t1 t2)"
  using inv
  unfolding registry_inv_def emit_close_iotDevices emit_close_webClients emit_close_listeners
  by (auto simp: AList.distinct_delete distinct_snd_delete dest!: in_delete_cases
      split: option.splits listener.splits)

lemma registry_inv_step:
  assumes "step s s'" and "registry_inv s"
  shows "registry_inv s'"
  using assms
proof (induction rule: step.induct)
  case (connection s ws clientType deviceId clientId now)
  then show ?case by (simp add: registry_inv_accept)
next
  case (message s ws parsed t1 t2)
  then show ?case by (auto intro: registry_inv_same [of s])
next
  case (closing s ws)
  then show ?case by (auto intro: registry_inv_same [of s])
next
  case (closed s ws t1 t2)
  then show ?case by (simp add: registry_inv_emit_close)
next
  case (control s deviceId command v t1 t2)
  then show ?case by (auto intro: registry_inv_same [of s])
qed

lemma registry_inv_steps:
  assumes "step\<^sup>*\<^sup>* s s'" and "registry_inv s"
  shows "registry_inv s'"
  using assms by (induction rule: rtranclp_induct) (auto intro: registry_inv_step)

lemma reachable_registry_inv: "reachable s \<Longrightarrow> registry_inv s"
  unfolding reachable_def using registry_inv_steps registry_inv_init by blast

lemma broadcast_closeCall [simp]:
  "closeCall (sockets (broadcastToWebClients s f) c) = closeCall (sockets s c)"
proof -
  have "closeCall (sockets (fold (\<lambda>(clientId, client) s'.
          if readyState (sockets s' client) = OPEN then ws_send s' client f else s') cs s) c)
        = closeCall (sockets s c)" for cs s
    by (induction cs arbitrary: s) (auto simp: ws_send_sockets)
  then show ?thesis by (simp add: broadcastToWebClients_def)
qed

lemma emit_message_closeCall [simp]:
  "closeCall (sockets (emit_message s ws p t1 t2) c) = closeCall (sockets s c)"
  by (simp add: emit_message_def on_device_message_def Let_def
      split: option.splits listener.splits sum.splits)

lemma emit_close_closeCall [simp]:
  "closeCall (sockets (emit_close s ws t1 t2) c) = closeCall (sockets s c)"
  by (simp add: emit_close_def on_device_close_def on_web_close_def Let_def
      split: option.splits listener.splits)

lemma accept_other_socket:
  "c \<noteq> ws \<Longrightarrow> sockets (accept s ws clientType deviceId clientId now) c = sockets s c"
  by (cases "device_request clientType deviceId"; cases "clientType = Some ''web''")
     (simp_all add: accept_device accept_web accept_rejected)

lemma accept_registered:
  "snd ` set (iotDevices (accept s ws clientType deviceId clientId now)) \<subseteq>
     insert ws (snd ` set (iotDevices s))"
  "snd ` set (webClients (accept s ws clientType deviceId clientId now)) \<subseteq>
     insert ws (snd ` set (webClients s))"
  by (cases "device_request clientType deviceId"; cases "clientType = Some ''web''";
      auto simp: accept_device accept_web accept_rejected dest!: in_update_cases)+

lemma retired_step:
  assumes "step s s'" and "retired s ws"
  shows "retired s' ws"
  using assms
proof (induction rule: step.induct)
  case (connection s ws' clientType deviceId clientId now)
  from connection have ne: "ws \<noteq> ws'"
    by (auto simp: retired_def fresh_def no_socket_def)
  with connection.prems accept_registered [of s ws' clientType deviceId clientId now]
  show ?case
    by (auto simp: retired_def accept_other_socket)
next
  case (message s ws' parsed t1 t2)
  then show ?case by (simp add: retired_def)
next
  case (closing s ws')
  then show ?case by (auto simp: retired_def)
next
  case (closed s ws' t1 t2)
  then show ?case
    by (auto simp: retired_def emit_close_iotDevices emit_close_webClients
        dest!: in_delete_cases split: option.splits listener.splits)
next
  case (control s deviceId command v t1 t2)
  then show ?case by (simp add: retired_def)
qed

lemma retired_steps:
  assumes "step\<^sup>*\<^sup>* s s'" and "retired s ws"
  shows "retired s' ws"
  using assms by (induction rule: rtranclp_induct) (auto intro: retired_step)

subsection \<open>Reachable states\<close>

lemma reachable_init: "reachable (init t0)"
  by (auto simp: reachable_def)

lemma reachable_step: "reachable s \<Longrightarrow> step s s' \<Longrightarrow> reachable s'"
  by (auto simp: reachable_def intro: rtranclp.rtrancl_into_rtrancl)

lemma reachable_steps: "reachable s \<Longrightarrow> step\<^sup>*\<^sup>* s s' \<Longrightarrow> reachable s'"
  by (auto simp: reachable_def intro: rtranclp_trans)

lemma scn_device_eq:
  "scn_device = (init ''t0'')\<lparr>console := [LogDeviceConnected ''device_001''],
       iotDevices := [(''device_001'', 0)],
       registeredDevices :=
        [\<lparr>dev_id = ''device_001'', dev_name = ''Kitchen Sensor'', dev_type = ''sensor'',
          location = ''Kitchen'', online = True, lastSeen = Some ''t1''\<rparr>,
         \<lparr>dev_id = ''device_002'', dev_name = ''LED Controller'', dev_type = ''actuator'',
          location = ''Living Room'', online = False, lastSeen = None\<rparr>],
       sockets := (\<lambda>_. no_socket)(0 := \<lparr>readyState = OPEN,
          sent = [Config ''Connected to cloud server'' ''device_001''], closeCall = None,
          listeners = Some (DeviceListeners ''device_001'')\<rparr>)\<rparr>"
  by (simp add: scn_device_def accept_device init_def)

lemma reachable_scn_device: "reachable scn_device"
  unfolding scn_device_def
  by (rule reachable_step [OF reachable_init step.connection]) (simp add: fresh_def init_def)

lemma reachable_scn_device_closing: "reachable scn_device_closing"
  unfolding scn_device_closing_def
  by (rule reachable_step [OF reachable_scn_device step.closing]) (simp add: scn_device_eq)

lemma scn_dashboard_eq:
  "scn_dashboard = scn_device\<lparr>
       console := [LogDeviceConnected ''device_001'', LogWebConnected ''k3x9''],
       webClients := [(''k3x9'', 1)],
       sockets := (sockets scn_device)(1 := \<lparr>readyState = OPEN,
          sent = [InitialData (registeredDevices scn_device) (props (deviceStates scn_device))
                    ''t2''],
          closeCall = None, listeners = Some (WebListeners ''k3x9'')\<rparr>)\<rparr>"
  by (simp add: scn_dashboard_def accept_web) (simp add: scn_device_eq init_def)

lemma reachable_scn_dashboard: "reachable scn_dashboard"
  unfolding scn_dashboard_def
  by (rule reachable_step [OF reachable_scn_device step.connection])
     (simp add: fresh_def scn_device_eq init_def)

section \<open>Commands\<close>

lemma post_control_not_connected:
  assumes "ToString_defined v"
    and "map_of (iotDevices s) deviceId = None \<or>
           (\<exists>ws. map_of (iotDevices s) deviceId = Some ws \<and> readyState (sockets s ws) \<noteq> OPEN)"
  shows "snd (post_control s deviceId command v t1 t2) =
           Inr (404, Failure (''Device '' @ deviceId @ '' is not connected'')) \<and>
         deviceStates (fst (post_control s deviceId command v t1 t2)) = deviceStates s \<and>
         registeredDevices (fst (post_control s deviceId command v t1 t2)) = registeredDevices s \<and>
         iotDevices (fst (post_control s deviceId command v t1 t2)) = iotDevices s \<and>
         webClients (fst (post_control s deviceId command v t1 t2)) = webClients s \<and>
         sockets (fst (post_control s deviceId command v t1 t2)) = sockets s"
  using assms by (auto simp: post_control_def Let_def)

lemma post_control_not_connected_unchanged:
  assumes "map_of (iotDevices s) deviceId = None \<or>
           (\<exists>ws. map_of (iotDevices s) deviceId = Some ws \<and> readyState (sockets s ws) \<noteq> OPEN)"
  shows "deviceStates (fst (post_control s deviceId command v t1 t2)) = deviceStates s \<and>
         registeredDevices (fst (post_control s deviceId command v t1 t2)) = registeredDevices s \<and>
         iotDevices (fst (post_control s deviceId command v t1 t2)) = iotDevices s \<and>
         webClients (fst (post_control s deviceId command v t1 t2)) = webClients s \<and>
         sockets (fst (post_control s deviceId command v t1 t2)) = sockets s"
  using assms by (auto simp: post_control_def Let_def)

lemma post_control_unprintable:
  "\<not> ToString_defined v \<Longrightarrow> post_control s deviceId command v t1 t2 = (s, Inl TypeError)"
  by (simp add: post_control_def)

lemma post_control_not_connected_examples:
  "snd (post_control (init ''t0'') ''device_001'' ''led'' (JBool True) ''t1'' ''t2'') =
     Inr (404, Failure ''Device device_001 is not connected'') \<and>
   deviceStates (fst (post_control (init ''t0'') ''device_001'' ''led'' (JBool True) ''t1'' ''t2''))
     = deviceStates (init ''t0'') \<and>
   snd (post_control scn_device_closing ''device_001'' ''led'' (JBool True) ''t2'' ''t3'') =
     Inr (404, Failure ''Device device_001 is not connected'') \<and>
   sockets (fst (post_control scn_device_closing ''device_001'' ''led'' (JBool True) ''t2'' ''t3''))
     = sockets scn_device_closing"
  using post_control_not_connected
          [of "JBool True" "init ''t0''" "''device_001''" "''led''" "''t1''" "''t2''"]
        post_control_not_connected
          [of "JBool True" scn_device_closing "''device_001''" "''led''" "''t2''" "''t3''"]
  by (simp add: init_def scn_device_closing_def scn_device_eq)

text \<open>
  C2. The claim is that a command for a device identity that has no registered connection,
  or whose registered connection is not open, is answered that the device is not
  connected, and changes nothing. Nothing is changed indeed, whatever the value
  (\<open>post_control_not_connected_unchanged\<close>), and the answer is status 404 with that
  message for every value that has a conversion to a string
  (\<open>post_control_not_connected\<close>). For the value \<open>{toString: 1}\<close> the claim fails:
  in the initial state, where \<open>device_001\<close> has no registered connection, the handler
  raises a TypeError in its first statement, the log line, and builds no answer.
\<close>

theorem post_control_unprintable_raises:
  "map_of (iotDevices (init ''t0'')) ''device_001'' = None \<and>
   post_control (init ''t0'') ''device_001'' ''led'' unprintable ''t1'' ''t2'' =
     (init ''t0'', Inl TypeError) \<and>
   post_control (init ''t0'') ''device_001'' ''led'' (JArr [JNum 1, unprintable]) ''t1'' ''t2'' =
     (init ''t0'', Inl TypeError)"
  by (simp add: post_control_def unprintable_def) (simp add: init_def)

section \<open>Frames from a device\<close>

text \<open>
  C9. On a socket that carries a device's listeners, a frame that \<^verbatim>\<open>JSON.parse\<close>
  rejects leaves one error line on the console and nothing else: every socket is as before
  (the connection stays open and nothing is sent to a dashboard), and so are both
  connection registries, the shared state and the device registry.
\<close>

theorem malformed_frame_ignored:
  assumes "listeners (sockets s ws) = Some (DeviceListeners deviceId)"
  shows "console (emit_message s ws None t1 t2) = console s @ [LogParseError] \<and>
         sockets (emit_message s ws None t1 t2) = sockets s \<and>
         iotDevices (emit_message s ws None t1 t2) = iotDevices s \<and>
         webClients (emit_message s ws None t1 t2) = webClients s \<and>
         deviceStates (emit_message s ws None t1 t2) = deviceStates s \<and>
         registeredDevices (emit_message s ws None t1 t2) = registeredDevices s"
  using assms by (simp add: emit_message_def on_device_message_def)

theorem malformed_frame_ignored_witness:
  "console (emit_message scn_dashboard 0 None ''t3'' ''t4'') =
     [LogDeviceConnected ''device_001'', LogWebConnected ''k3x9'', LogParseError] \<and>
   sockets (emit_message scn_dashboard 0 None ''t3'' ''t4'') = sockets scn_dashboard \<and>
   readyState (sockets (emit_message scn_dashboard 0 None ''t3'' ''t4'') 0) = OPEN \<and>
   iotDevices (emit_message scn_dashboard 0 None ''t3'' ''t4'') = [(''device_001'', 0)] \<and>
   deviceStates (emit_message scn_dashboard 0 None ''t3'' ''t4'') = deviceStates (init ''t0'')"
  using malformed_frame_ignored [of scn_dashboard 0 "''device_001''" "''t3''" "''t4''"]
  by (simp add: scn_dashboard_eq scn_device_eq)

text \<open>
  C10. On a socket that carries a device's listeners, a frame that parses but whose
  \<open>type\<close> member is not the string \<open>sensorData\<close> (another string, another kind of
  value, no such member, or a frame that is no object at all) changes neither the shared
  state (\<open>lastUpdate\<close> included), nor the device registry, nor a connection registry, nor
  any socket: nothing is sent to a dashboard.
\<close>

theorem untagged_frame_dropped:
  assumes "listeners (sockets s ws) = Some (DeviceListeners deviceId)"
    and "get_field data ''type'' \<noteq> Inr (JStr ''sensorData'')"
  shows "deviceStates (emit_message s ws (Some data) t1 t2) = deviceStates s \<and>
         registeredDevices (emit_message s ws (Some data) t1 t2) = registeredDevices s \<and>
         iotDevices (emit_message s ws (Some data) t1 t2) = iotDevices s \<and>
         webClients (emit_message s ws (Some data) t1 t2) = webClients s \<and>
         sockets (emit_message s ws (Some data) t1 t2) = sockets s"
  using assms
  by (auto simp: emit_message_def on_device_message_def Let_def split: sum.splits)

theorem untagged_frame_dropped_witness:
  "deviceStates (emit_message scn_dashboard 0
      (Some (JObj [(''data'', JObj [(''temperature'', JNum 30)])])) ''t3'' ''t4'')
     = deviceStates scn_dashboard \<and>
   sockets (emit_message scn_dashboard 0
      (Some (JObj [(''data'', JObj [(''temperature'', JNum 30)])])) ''t3'' ''t4'')
     = sockets scn_dashboard \<and>
   deviceStates (emit_message scn_dashboard 0
      (Some (JObj [(''type'', JStr ''status''), (''data'', JObj [(''led'', JBool True)])]))
      ''t3'' ''t4'') = deviceStates scn_dashboard \<and>
   sockets (emit_message scn_dashboard 0 (Some JNull) ''t3'' ''t4'') = sockets scn_dashboard"
  using untagged_frame_dropped [of scn_dashboard 0 "''device_001''"
          "JObj [(''data'', JObj [(''temperature'', JNum 30)])]" "''t3''" "''t4''"]
        untagged_frame_dropped [of scn_dashboard 0 "''device_001''"
          "JObj [(''type'', JStr ''status''), (''data'', JObj [(''led'', JBool True)])]"
          "''t3''" "''t4''"]
        untagged_frame_dropped [of scn_dashboard 0 "''device_001''" JNull "''t3''" "''t4''"]
  by (simp add: scn_dashboard_eq scn_device_eq)

section \<open>Connections\<close>

lemma device_request_None:
  "(clientType \<noteq> Some ''device'' \<and> clientType \<noteq> Some ''web'') \<or>
   (clientType = Some ''device'' \<and> (deviceId = None \<or> deviceId = Some [])) \<Longrightarrow>
   device_request clientType deviceId = None \<and> clientType \<noteq> Some ''web''"
  by (cases clientType; cases deviceId) auto

lemma rejected_retired:
  assumes inv: "registry_inv s" and fr: "fresh s ws"
    and r: "device_request clientType deviceId = None" "clientType \<noteq> Some ''web''"
  shows "retired (accept s ws clientType deviceId clientId now) ws"
  using fresh_unregistered [OF inv fr]
  by (simp add: retired_def accept_rejected [OF r])

lemma fresh_scn_dashboard_2: "fresh scn_dashboard 2"
  by (simp add: fresh_def scn_dashboard_eq scn_device_eq init_def)

text \<open>
  C7. A connection whose \<open>type\<close> parameter is absent or is neither \<open>device\<close> nor
  \<open>web\<close>, and a connection of type \<open>device\<close> whose \<open>deviceId\<close> is absent or empty,
  is closed at once with code 1008 (policy violation) and the reason \<open>Invalid client
  type\<close>; nothing is sent on it, no listener is registered on it, both connection
  registries are as before, and its socket is in neither registry in any later state.
\<close>

theorem invalid_connection_rejected:
  assumes "reachable s" and "fresh s ws"
    and "(clientType \<noteq> Some ''device'' \<and> clientType \<noteq> Some ''web'') \<or>
         (clientType = Some ''device'' \<and> (deviceId = None \<or> deviceId = Some []))"
    and "s' = accept s ws clientType deviceId clientId now"
  shows "readyState (sockets s' ws) = CLOSING \<and>
         closeCall (sockets s' ws) = Some (1008, ''Invalid client type'') \<and>
         sent (sockets s' ws) = [] \<and>
         listeners (sockets s' ws) = None \<and>
         iotDevices s' = iotDevices s \<and>
         webClients s' = webClients s \<and>
         (\<forall>s''. step\<^sup>*\<^sup>* s' s'' \<longrightarrow>
            ws \<notin> snd ` set (iotDevices s'') \<and> ws \<notin> snd ` set (webClients s''))"
proof -
  from assms(3) have r: "device_request clientType deviceId = None" "clientType \<noteq> Some ''web''"
    using device_request_None [of clientType deviceId] by simp_all
  have "retired s' ws"
    unfolding assms(4)
    by (rule rejected_retired [OF reachable_registry_inv [OF assms(1)] assms(2) r])
  then have later: "\<forall>s''. step\<^sup>*\<^sup>* s' s'' \<longrightarrow>
            ws \<notin> snd ` set (iotDevices s'') \<and> ws \<notin> snd ` set (webClients s'')"
    using retired_steps [of s' _ ws] by (auto simp: retired_def)
  have now: "readyState (sockets s' ws) = CLOSING \<and>
         closeCall (sockets s' ws) = Some (1008, ''Invalid client type'') \<and>
         sent (sockets s' ws) = [] \<and>
         listeners (sockets s' ws) = None \<and>
         iotDevices s' = iotDevices s \<and>
         webClients s' = webClients s"
    unfolding assms(4) by (simp add: accept_rejected [OF r])
  from now later show ?thesis by blast
qed

theorem invalid_connection_rejected_witness:
  "closeCall (sockets (accept scn_dashboard 2 (Some ''sensor'') (Some ''device_002'') ''r1'' ''t3'') 2)
     = Some (1008, ''Invalid client type'') \<and>
   iotDevices (accept scn_dashboard 2 (Some ''sensor'') (Some ''device_002'') ''r1'' ''t3'')
     = [(''device_001'', 0)] \<and>
   webClients (accept scn_dashboard 2 (Some ''sensor'') (Some ''device_002'') ''r1'' ''t3'')
     = [(''k3x9'', 1)] \<and>
   2 \<notin> snd ` set (iotDevices (emit_close
       (accept scn_dashboard 2 (Some ''sensor'') (Some ''device_002'') ''r1'' ''t3'') 2 ''t4'' ''t5'')) \<and>
   2 \<notin> snd ` set (webClients (emit_close
       (accept scn_dashboard 2 (Some ''sensor'') (Some ''device_002'') ''r1'' ''t3'') 2 ''t4'' ''t5'')) \<and>
   closeCall (sockets (accept scn_dashboard 2 None None ''r1'' ''t3'') 2)
     = Some (1008, ''Invalid client type'') \<and>
   closeCall (sockets (accept scn_dashboard 2 (Some ''device'') None ''r1'' ''t3'') 2)
     = Some (1008, ''Invalid client type'') \<and>
   closeCall (sockets (accept scn_dashboard 2 (Some ''device'') (Some []) ''r1'' ''t3'') 2)
     = Some (1008, ''Invalid client type'')"
proof -
  let ?a = "accept scn_dashboard 2 (Some ''sensor'') (Some ''device_002'') ''r1'' ''t3''"
  have a: "readyState (sockets ?a 2) = CLOSING \<and>
         closeCall (sockets ?a 2) = Some (1008, ''Invalid client type'') \<and>
         sent (sockets ?a 2) = [] \<and>
         listeners (sockets ?a 2) = None \<and>
         iotDevices ?a = iotDevices scn_dashboard \<and>
         webClients ?a = webClients scn_dashboard \<and>
         (\<forall>s''. step\<^sup>*\<^sup>* ?a s'' \<longrightarrow>
            2 \<notin> snd ` set (iotDevices s'') \<and> 2 \<notin> snd ` set (webClients s''))"
    by (rule invalid_connection_rejected [OF reachable_scn_dashboard fresh_scn_dashboard_2 _ refl])
       simp
  then have "readyState (sockets ?a 2) \<noteq> CLOSED" by simp
  then have "step ?a (emit_close ?a 2 ''t4'' ''t5'')" by (rule step.closed)
  then have "step\<^sup>*\<^sup>* ?a (emit_close ?a 2 ''t4'' ''t5'')" by (rule r_into_rtranclp)
  with a have later: "2 \<notin> snd ` set (iotDevices (emit_close ?a 2 ''t4'' ''t5'')) \<and>
      2 \<notin> snd ` set (webClients (emit_close ?a 2 ''t4'' ''t5''))"
    by blast
  have b: "closeCall (sockets (accept scn_dashboard 2 None None ''r1'' ''t3'') 2)
     = Some (1008, ''Invalid client type'')"
    using invalid_connection_rejected [OF reachable_scn_dashboard fresh_scn_dashboard_2 _ refl,
            of None None "''r1''" "''t3''"] by simp
  have c: "closeCall (sockets (accept scn_dashboard 2 (Some ''device'') None ''r1'' ''t3'') 2)
     = Some (1008, ''Invalid client type'')"
    using invalid_connection_rejected [OF reachable_scn_dashboard fresh_scn_dashboard_2 _ refl,
            of "Some ''device''" None "''r1''" "''t3''"] by simp
  have d: "closeCall (sockets (accept scn_dashboard 2 (Some ''device'') (Some []) ''r1'' ''t3'') 2)
     = Some (1008, ''Invalid client type'')"
    using invalid_connection_rejected [OF reachable_scn_dashboard fresh_scn_dashboard_2 _ refl,
            of "Some ''device''" "Some []" "''r1''" "''t3''"] by simp
  have e: "iotDevices scn_dashboard = [(''device_001'', 0)]"
    "webClients scn_dashboard = [(''k3x9'', 1)]"
    by (simp_all add: scn_dashboard_eq scn_device_eq)
  from a later b c d e show ?thesis by simp
qed

section \<open>Sensor reports\<close>

lemma snapshot_eq: "snapshot s k = map_of (props (deviceStates s)) k"
  by (simp add: snapshot_def get_sensors_def)

lemma proto_set_property:
  "k \<noteq> ''__proto__'' \<Longrightarrow> proto (set_property obj k v) = proto obj"
  by (simp add: set_property_def)

lemma merge_temperature:
  "merge_sensor_data obj (JObj [(''temperature'', v)]) now =
     obj\<lparr>props := AList.update ''lastUpdate'' (JStr now)
                     (AList.update ''temperature'' v (props obj))\<rparr>"
  by (simp add: merge_sensor_data_def Object_assign_def set_property_plain)

lemma emit_message_sensorData:
  assumes "listeners (sockets s ws) = Some (DeviceListeners deviceId)"
    and "get_field data ''type'' = Inr (JStr ''sensorData'')"
    and "get_field data ''data'' = Inr payload"
  shows "emit_message s ws (Some data) t1 t2 =
     broadcastToWebClients
       ((console_log s (LogData deviceId data))
          \<lparr>deviceStates := merge_sensor_data (deviceStates s) payload t1\<rparr>)
       (SensorUpdate deviceId payload t2)"
  using assms by (simp add: emit_message_def on_device_message_def Let_def)

text \<open>
  C4. In every state the server can be in, a frame with \<open>type\<close> \<open>sensorData\<close> and
  \<open>data\<close> \<open>{temperature: 30}\<close> that arrives on a socket carrying a device's listeners
  sets the snapshot's \<open>temperature\<close> to 30 and \<open>lastUpdate\<close> to the clock's reading,
  and leaves every other property of the snapshot, and the prototype, as they were. Every
  dashboard socket that is registered and open gets exactly one more frame, the
  \<open>sensorUpdate\<close> with the device's identity, the \<open>data\<close> member as received and a
  timestamp; every other socket (a dashboard that is closing or closed, a device) is as
  before. The registries are unchanged.
\<close>

theorem sensor_data_temperature:
  assumes "reachable s"
    and "listeners (sockets s ws) = Some (DeviceListeners deviceId)"
    and "get_field data ''type'' = Inr (JStr ''sensorData'')"
    and "get_field data ''data'' = Inr (JObj [(''temperature'', JNum 30)])"
    and "s' = emit_message s ws (Some data) t1 t2"
  shows "snapshot s' ''temperature'' = Some (JNum 30) \<and>
         snapshot s' ''lastUpdate'' = Some (JStr t1) \<and>
         (\<forall>k. k \<noteq> ''temperature'' \<and> k \<noteq> ''lastUpdate'' \<longrightarrow> snapshot s' k = snapshot s k) \<and>
         proto (deviceStates s') = proto (deviceStates s) \<and>
         (\<forall>c. sockets s' c =
            (if open_dashboard s c
             then pushed (sockets s c)
                    (SensorUpdate deviceId (JObj [(''temperature'', JNum 30)]) t2)
             else sockets s c)) \<and>
         iotDevices s' = iotDevices s \<and> webClients s' = webClients s \<and>
         registeredDevices s' = registeredDevices s"
proof -
  let ?m = "(console_log s (LogData deviceId data))
          \<lparr>deviceStates := merge_sensor_data (deviceStates s) (JObj [(''temperature'', JNum 30)]) t1\<rparr>"
  have eq: "s' = broadcastToWebClients ?m
       (SensorUpdate deviceId (JObj [(''temperature'', JNum 30)]) t2)"
    unfolding assms(5) by (rule emit_message_sensorData [OF assms(2,3,4)])
  have d: "distinct (map snd (webClients ?m))"
    using reachable_registry_inv [OF assms(1)] by (simp add: registry_inv_def)
  have od: "open_dashboard ?m c = open_dashboard s c" for c
    by (simp add: open_dashboard_def)
  have st: "deviceStates s' = (deviceStates s)\<lparr>props := AList.update ''lastUpdate'' (JStr t1)
                     (AList.update ''temperature'' (JNum 30) (props (deviceStates s)))\<rparr>"
    by (simp add: eq merge_temperature)
  have sk: "\<forall>c. sockets s' c =
            (if open_dashboard s c
             then pushed (sockets s c)
                    (SensorUpdate deviceId (JObj [(''temperature'', JNum 30)]) t2)
             else sockets s c)"
    unfolding eq by (simp add: broadcast_sockets [OF d] od)
  have rest: "iotDevices s' = iotDevices s \<and> webClients s' = webClients s \<and>
         registeredDevices s' = registeredDevices s"
    by (simp add: eq)
  have snap: "snapshot s' ''temperature'' = Some (JNum 30) \<and>
         snapshot s' ''lastUpdate'' = Some (JStr t1) \<and>
         (\<forall>k. k \<noteq> ''temperature'' \<and> k \<noteq> ''lastUpdate'' \<longrightarrow> snapshot s' k = snapshot s k) \<and>
         proto (deviceStates s') = proto (deviceStates s)"
    by (simp add: snapshot_eq st AList.update_conv')
  from snap sk rest show ?thesis by blast
qed

lemma scn_two_dashboards_eq:
  "scn_two_dashboards = scn_dashboard\<lparr>
       console := [LogDeviceConnected ''device_001'', LogWebConnected ''k3x9'',
                   LogWebConnected ''q7m1''],
       webClients := [(''k3x9'', 1), (''q7m1'', 2)],
       sockets := (sockets scn_dashboard)(2 := \<lparr>readyState = CLOSING,
          sent = [InitialData (registeredDevices scn_device) (props (deviceStates scn_device))
                    ''t3''],
          closeCall = None, listeners = Some (WebListeners ''q7m1'')\<rparr>)\<rparr>"
  by (simp add: scn_two_dashboards_def accept_web Let_def)
     (simp add: scn_dashboard_eq scn_device_eq init_def)

lemma reachable_scn_two_dashboards: "reachable scn_two_dashboards"
proof -
  have "fresh scn_dashboard 2"
    by (simp add: fresh_def scn_dashboard_eq scn_device_eq init_def)
  then have a: "reachable (accept scn_dashboard 2 (Some ''web'') None ''q7m1'' ''t3'')"
    by (rule reachable_step [OF reachable_scn_dashboard step.connection])
  have "readyState (sockets (accept scn_dashboard 2 (Some ''web'') None ''q7m1'' ''t3'') 2) = OPEN"
    by (simp add: accept_web)
  then show ?thesis
    unfolding scn_two_dashboards_def Let_def
    by (rule reachable_step [OF a step.closing])
qed

theorem sensor_data_temperature_witness:
  "snapshot (emit_message scn_two_dashboards 0
       (Some (JObj [(''type'', JStr ''sensorData''),
                    (''data'', JObj [(''temperature'', JNum 30)])])) ''t4'' ''t5'')
     ''temperature'' = Some (JNum 30) \<and>
   snapshot (emit_message scn_two_dashboards 0
       (Some (JObj [(''type'', JStr ''sensorData''),
                    (''data'', JObj [(''temperature'', JNum 30)])])) ''t4'' ''t5'')
     ''humidity'' = Some (JNum 68) \<and>
   sent (sockets (emit_message scn_two_dashboards 0
       (Some (JObj [(''type'', JStr ''sensorData''),
                    (''data'', JObj [(''temperature'', JNum 30)])])) ''t4'' ''t5'') 1) =
     sent (sockets scn_two_dashboards 1) @
       [SensorUpdate ''device_001'' (JObj [(''temperature'', JNum 30)]) ''t5''] \<and>
   sent (sockets (emit_message scn_two_dashboards 0
       (Some (JObj [(''type'', JStr ''sensorData''),
                    (''data'', JObj [(''temperature'', JNum 30)])])) ''t4'' ''t5'') 2) =
     sent (sockets scn_two_dashboards 2) \<and>
   sent (sockets (emit_message scn_two_dashboards 0
       (Some (JObj [(''type'', JStr ''sensorData''),
                    (''data'', JObj [(''temperature'', JNum 30)])])) ''t4'' ''t5'') 0) =
     sent (sockets scn_two_dashboards 0)"
proof -
  let ?d = "JObj [(''type'', JStr ''sensorData''), (''data'', JObj [(''temperature'', JNum 30)])]"
  have l: "listeners (sockets scn_two_dashboards 0) = Some (DeviceListeners ''device_001'')"
    by (simp add: scn_two_dashboards_eq scn_dashboard_eq scn_device_eq)
  have ty: "get_field ?d ''type'' = Inr (JStr ''sensorData'')"
    and da: "get_field ?d ''data'' = Inr (JObj [(''temperature'', JNum 30)])"
    by simp_all
  have od: "open_dashboard scn_two_dashboards 1" "\<not> open_dashboard scn_two_dashboards 2"
    "\<not> open_dashboard scn_two_dashboards 0"
    by (simp_all add: open_dashboard_def scn_two_dashboards_eq scn_dashboard_eq scn_device_eq)
  have hum: "snapshot scn_two_dashboards ''humidity'' = Some (JNum 68)"
    by (simp add: snapshot_eq scn_two_dashboards_eq scn_dashboard_eq scn_device_eq init_def)
  show ?thesis
    using sensor_data_temperature [OF reachable_scn_two_dashboards l ty da refl, of "''t4''" "''t5''"]
      od hum
    by simp
qed

section \<open>Connecting and disconnecting devices\<close>

lemma device_request_Some:
  "deviceId \<noteq> [] \<Longrightarrow> device_request (Some ''device'') (Some deviceId) = Some deviceId"
  by simp

lemma emit_close_device:
  assumes "listeners (sockets s ws) = Some (DeviceListeners i)"
  shows "emit_close s ws t1 t2 =
     broadcastToWebClients
       (s\<lparr>sockets := (sockets s)(ws := (sockets s ws)\<lparr>readyState := CLOSED\<rparr>),
          console := console s @ [LogDeviceDisconnected i],
          iotDevices := AList.delete i (iotDevices s),
          registeredDevices := mark_device (registeredDevices s) i False t1\<rparr>)
       (DeviceDisconnected i t2)"
  using assms by (simp add: emit_close_def on_device_close_def Let_def console_log_def)

lemma device_socket_no_dashboard:
  assumes "registry_inv s" and "listeners (sockets s ws) = Some (DeviceListeners i)"
  shows "ws \<notin> snd ` set (webClients s)"
  using assms by (auto simp: registry_inv_def)

lemma registered_device_no_dashboard:
  assumes "registry_inv s" and "map_of (iotDevices s) i = Some ws"
  shows "ws \<notin> snd ` set (webClients s)"
proof -
  from assms(2) have "(i, ws) \<in> set (iotDevices s)" by (rule map_of_SomeD)
  with assms(1) obtain j where "listeners (sockets s ws) = Some (DeviceListeners j)"
    by (auto simp: registry_inv_def)
  with assms(1) show ?thesis by (rule device_socket_no_dashboard)
qed

lemma emit_close_device_sockets:
  assumes inv: "registry_inv s" and l: "listeners (sockets s ws) = Some (DeviceListeners i)"
  shows "sockets (emit_close s ws t1 t2) c =
     (if c = ws then (sockets s ws)\<lparr>readyState := CLOSED\<rparr>
      else if open_dashboard s c then pushed (sockets s c) (DeviceDisconnected i t2)
      else sockets s c)"
proof -
  let ?m = "s\<lparr>sockets := (sockets s)(ws := (sockets s ws)\<lparr>readyState := CLOSED\<rparr>),
          console := console s @ [LogDeviceDisconnected i],
          iotDevices := AList.delete i (iotDevices s),
          registeredDevices := mark_device (registeredDevices s) i False t1\<rparr>"
  have d: "distinct (map snd (webClients ?m))"
    using inv by (simp add: registry_inv_def)
  have nw: "ws \<notin> snd ` set (webClients s)"
    using inv l by (rule device_socket_no_dashboard)
  have od: "open_dashboard ?m c = (c \<noteq> ws \<and> open_dashboard s c)"
    using nw by (auto simp: open_dashboard_def)
  show ?thesis
    unfolding emit_close_device [OF l] broadcast_sockets [OF d] od
    using nw by (auto simp: open_dashboard_def)
qed

text \<open>
  C6. In every state the server can be in, when a device connects on a new socket and the
  transport then reports the end of that connection: if the device registry has a record
  of that identity (the first one, as \<open>find\<close> returns it), the record is online with
  \<open>lastSeen\<close> the time of the connection after the first event, and offline with
  \<open>lastSeen\<close> the time of the disconnection after the second, its other fields as they
  were; if the registry has no such record, it is unchanged by both events. On the
  disconnection every dashboard socket that is registered and open gets exactly one more
  frame, \<open>deviceDisconnected\<close> with the device's identity and a timestamp, and no other
  socket gets a frame. The device's registration is there after the first event and gone
  after the second. (In the initial state both records are offline, see \<open>init\<close>.)
\<close>

theorem device_connect_disconnect:
  assumes "reachable s" and "fresh s ws" and "deviceId \<noteq> []"
    and "s1 = accept s ws (Some ''device'') (Some deviceId) clientId t1"
    and "s2 = emit_close s1 ws t2 t3"
  shows "(case find_device (registeredDevices s) deviceId of
            Some d \<Rightarrow>
              find_device (registeredDevices s1) deviceId =
                Some (d\<lparr>online := True, lastSeen := Some t1\<rparr>) \<and>
              find_device (registeredDevices s2) deviceId =
                Some (d\<lparr>online := False, lastSeen := Some t2\<rparr>)
          | None \<Rightarrow>
              registeredDevices s1 = registeredDevices s \<and>
              registeredDevices s2 = registeredDevices s) \<and>
         (\<forall>c. sockets s2 c =
            (if c = ws then (sockets s1 ws)\<lparr>readyState := CLOSED\<rparr>
             else if open_dashboard s1 c
               then pushed (sockets s1 c) (DeviceDisconnected deviceId t3)
             else sockets s1 c)) \<and>
         map_of (iotDevices s1) deviceId = Some ws \<and>
         map_of (iotDevices s2) deviceId = None \<and>
         webClients s2 = webClients s"
proof -
  note r = device_request_Some [OF assms(3)]
  have s1: "s1 = s\<lparr>console := console s @ [LogDeviceConnected deviceId],
       iotDevices := AList.update deviceId ws (iotDevices s),
       registeredDevices := mark_device (registeredDevices s) deviceId True t1,
       sockets := (sockets s)(ws := \<lparr>readyState = OPEN,
          sent = [Config ''Connected to cloud server'' deviceId], closeCall = None,
          listeners = Some (DeviceListeners deviceId)\<rparr>)\<rparr>"
    unfolding assms(4) by (rule accept_device [OF r])
  have l: "listeners (sockets s1 ws) = Some (DeviceListeners deviceId)"
    by (simp add: s1)
  have "step s s1"
    unfolding assms(4) using assms(2) by (rule step.connection)
  then have inv1: "registry_inv s1"
    using reachable_registry_inv [OF assms(1)] by (rule registry_inv_step)
  have sk: "\<forall>c. sockets s2 c =
            (if c = ws then (sockets s1 ws)\<lparr>readyState := CLOSED\<rparr>
             else if open_dashboard s1 c
               then pushed (sockets s1 c) (DeviceDisconnected deviceId t3)
             else sockets s1 c)"
    unfolding assms(5) using emit_close_device_sockets [OF inv1 l] by blast
  have r1: "registeredDevices s1 = mark_device (registeredDevices s) deviceId True t1"
    by (simp add: s1)
  have r2: "registeredDevices s2 = mark_device (registeredDevices s1) deviceId False t2"
    unfolding assms(5) emit_close_device [OF l] by simp
  have reg: "(case find_device (registeredDevices s) deviceId of
            Some d \<Rightarrow>
              find_device (registeredDevices s1) deviceId =
                Some (d\<lparr>online := True, lastSeen := Some t1\<rparr>) \<and>
              find_device (registeredDevices s2) deviceId =
                Some (d\<lparr>online := False, lastSeen := Some t2\<rparr>)
          | None \<Rightarrow>
              registeredDevices s1 = registeredDevices s \<and>
              registeredDevices s2 = registeredDevices s)"
    by (simp add: r1 r2 find_mark_device_same mark_device_unknown split: option.splits)
  have io: "map_of (iotDevices s1) deviceId = Some ws \<and>
         map_of (iotDevices s2) deviceId = None \<and> webClients s2 = webClients s"
    unfolding assms(5) emit_close_device [OF l]
    by (simp add: s1 AList.update_conv' AList.delete_conv')
  from reg sk io show ?thesis by blast
qed

lemma scn_only_dashboard_eq:
  "scn_only_dashboard = (init ''t0'')\<lparr>
       console := [LogWebConnected ''k3x9''],
       webClients := [(''k3x9'', 1)],
       sockets := (\<lambda>_. no_socket)(1 := \<lparr>readyState = OPEN,
          sent = [InitialData (registeredDevices (init ''t0'')) (props (deviceStates (init ''t0'')))
                    ''t1''],
          closeCall = None, listeners = Some (WebListeners ''k3x9'')\<rparr>)\<rparr>"
  by (simp add: scn_only_dashboard_def accept_web) (simp add: init_def)

lemma reachable_scn_only_dashboard: "reachable scn_only_dashboard"
  unfolding scn_only_dashboard_def
  by (rule reachable_step [OF reachable_init step.connection]) (simp add: fresh_def init_def)

lemma fresh_scn_only_dashboard_0: "fresh scn_only_dashboard 0"
  by (simp add: fresh_def scn_only_dashboard_eq init_def)

theorem device_connect_disconnect_witness:
  "find_device (registeredDevices scn_only_dashboard) ''device_001'' =
     Some \<lparr>dev_id = ''device_001'', dev_name = ''Kitchen Sensor'', dev_type = ''sensor'',
           location = ''Kitchen'', online = False, lastSeen = None\<rparr> \<and>
   find_device (registeredDevices
       (accept scn_only_dashboard 0 (Some ''device'') (Some ''device_001'') ''-'' ''t2''))
     ''device_001'' =
     Some \<lparr>dev_id = ''device_001'', dev_name = ''Kitchen Sensor'', dev_type = ''sensor'',
           location = ''Kitchen'', online = True, lastSeen = Some ''t2''\<rparr> \<and>
   find_device (registeredDevices
       (emit_close (accept scn_only_dashboard 0 (Some ''device'') (Some ''device_001'') ''-'' ''t2'')
          0 ''t3'' ''t4''))
     ''device_001'' =
     Some \<lparr>dev_id = ''device_001'', dev_name = ''Kitchen Sensor'', dev_type = ''sensor'',
           location = ''Kitchen'', online = False, lastSeen = Some ''t3''\<rparr> \<and>
   sent (sockets
       (emit_close (accept scn_only_dashboard 0 (Some ''device'') (Some ''device_001'') ''-'' ''t2'')
          0 ''t3'' ''t4'') 1) =
     sent (sockets scn_only_dashboard 1) @ [DeviceDisconnected ''device_001'' ''t4''] \<and>
   registeredDevices
       (emit_close (accept scn_only_dashboard 0 (Some ''device'') (Some ''thermostat_7'') ''-'' ''t2'')
          0 ''t3'' ''t4'') = registeredDevices scn_only_dashboard"
proof -
  have f: "find_device (registeredDevices scn_only_dashboard) ''device_001'' =
     Some \<lparr>dev_id = ''device_001'', dev_name = ''Kitchen Sensor'', dev_type = ''sensor'',
           location = ''Kitchen'', online = False, lastSeen = None\<rparr>"
    "find_device (registeredDevices scn_only_dashboard) ''thermostat_7'' = None"
    by (simp_all add: find_device_def scn_only_dashboard_eq init_def)
  have od: "open_dashboard
      (accept scn_only_dashboard 0 (Some ''device'') (Some ''device_001'') ''-'' ''t2'') 1"
    by (simp add: open_dashboard_def accept_device) (simp add: scn_only_dashboard_eq)
  have sk: "sockets (accept scn_only_dashboard 0 (Some ''device'') (Some ''device_001'') ''-'' ''t2'') 1
      = sockets scn_only_dashboard 1"
    by (simp add: accept_device)
  show ?thesis
    using device_connect_disconnect [OF reachable_scn_only_dashboard fresh_scn_only_dashboard_0
            _ refl refl, of "''device_001''" "''-''" "''t2''" "''t3''" "''t4''"]
          device_connect_disconnect [OF reachable_scn_only_dashboard fresh_scn_only_dashboard_0
            _ refl refl, of "''thermostat_7''" "''-''" "''t2''" "''t3''" "''t4''"]
          f od sk
    by simp
qed

section \<open>Two devices with one identity\<close>

lemma set_update_distinct:
  "distinct (map fst al) \<Longrightarrow>
   set (AList.update k v al) = insert (k, v) {p \<in> set al. fst p \<noteq> k}"
  by (induction al) (auto simp: rev_image_eqI)

lemma post_control_pushes:
  assumes inv: "registry_inv s" and m: "map_of (iotDevices s) i = Some ws"
    and op: "readyState (sockets s ws) = OPEN" and pr: "ToString_defined v"
  shows "sockets (fst (post_control s i c v t1 t2)) ws = pushed (sockets s ws) (Command c v t1)"
proof -
  have nw: "ws \<notin> snd ` set (webClients s)"
    using inv m by (rule registered_device_no_dashboard)
  show ?thesis
    using m op nw pr
    by (simp add: post_control_def Let_def broadcast_sockets_other ws_send_sockets
        split: sum.splits)
qed

lemma post_control_untouched:
  assumes "w \<notin> snd ` set (iotDevices s)" and "w \<notin> snd ` set (webClients s)"
  shows "sockets (fst (post_control s i c v t1 t2)) w = sockets s w"
proof (cases "map_of (iotDevices s) i")
  case None
  then show ?thesis by (simp add: post_control_def Let_def)
next
  case (Some ws)
  then have "(i, ws) \<in> set (iotDevices s)" by (rule map_of_SomeD)
  then have "ws \<in> snd ` set (iotDevices s)" by force
  with assms(1) have ne: "w \<noteq> ws" by blast
  show ?thesis
    using Some ne assms(2)
    by (simp add: post_control_def Let_def broadcast_sockets_other ws_send_sockets
        split: sum.splits)
qed

text \<open>
  What the second connection under one identity does: in every state the server can be
  in, no device identifier has two entries in the device connection registry. When a
  device connects and, while its socket is still the one registered, a second device
  connects with the same identity, the registry maps the identity to the second socket and
  holds the first socket under no key. A command for that identity issued then, with a
  value that has a conversion to a string, is pushed to the second socket; so is one
  issued in any later state in which the second socket is still registered and open; and
  in no later state does a command for that identity change anything on the first socket.
\<close>

lemma same_identity_replaces:
  assumes "reachable s" and "fresh s ws1" and "deviceId \<noteq> []"
    and "s1 = accept s ws1 (Some ''device'') (Some deviceId) c1 t1"
    and "step\<^sup>*\<^sup>* s1 s1'"
    and "map_of (iotDevices s1') deviceId = Some ws1"
    and "fresh s1' ws2"
    and "s2 = accept s1' ws2 (Some ''device'') (Some deviceId) c2 t2"
    and "ToString_defined v"
  shows "map_of (iotDevices s1) deviceId = Some ws1 \<and>
         map_of (iotDevices s2) deviceId = Some ws2 \<and>
         ws1 \<noteq> ws2 \<and>
         ws1 \<notin> snd ` set (iotDevices s2) \<and>
         sockets (fst (post_control s2 deviceId command v ta tb)) ws2 =
           pushed (sockets s2 ws2) (Command command v ta) \<and>
         (\<forall>s3. step\<^sup>*\<^sup>* s2 s3 \<longrightarrow>
            distinct (map fst (iotDevices s3)) \<and>
            ws1 \<notin> snd ` set (iotDevices s3) \<and>
            sockets (fst (post_control s3 deviceId command v ta tb)) ws1 = sockets s3 ws1 \<and>
            (map_of (iotDevices s3) deviceId = Some ws2 \<and> readyState (sockets s3 ws2) = OPEN
               \<longrightarrow> sockets (fst (post_control s3 deviceId command v ta tb)) ws2 =
                     pushed (sockets s3 ws2) (Command command v ta)))"
proof -
  note r = device_request_Some [OF assms(3)]
  have "step s s1"
    unfolding assms(4) using assms(2) by (rule step.connection)
  then have reach1: "reachable s1"
    using assms(1) reachable_step by blast
  have reach1': "reachable s1'"
    using reach1 assms(5) by (rule reachable_steps)
  have inv1': "registry_inv s1'"
    using reach1' by (rule reachable_registry_inv)
  have "step s1' s2"
    unfolding assms(8) using assms(7) by (rule step.connection)
  then have reach2: "reachable s2"
    using reach1' reachable_step by blast
  have inv2: "registry_inv s2"
    using reach2 by (rule reachable_registry_inv)
  have m1: "map_of (iotDevices s1) deviceId = Some ws1"
    unfolding assms(4) accept_device [OF r] by (simp add: AList.update_conv')
  have io2: "iotDevices s2 = AList.update deviceId ws2 (iotDevices s1')"
    unfolding assms(8) accept_device [OF r] by simp
  have m2: "map_of (iotDevices s2) deviceId = Some ws2"
    by (simp add: io2 AList.update_conv')
  have in1: "(deviceId, ws1) \<in> set (iotDevices s1')"
    using assms(6) by (rule map_of_SomeD)
  then have "ws1 \<in> snd ` set (iotDevices s1')" by force
  then have ne: "ws1 \<noteq> ws2"
    using fresh_unregistered(1) [OF inv1' assms(7)] by blast
  have df: "distinct (map fst (iotDevices s1'))" and ds: "distinct (map snd (iotDevices s1'))"
    using inv1' by (simp_all add: registry_inv_def)
  have only: "k = deviceId" if "(k, ws1) \<in> set (iotDevices s1')" for k
    using ds in1 that by (metis eq_key_imp_eq_value map_of_SomeD map_of_is_SomeI
        distinct_map inj_on_def snd_conv fst_conv)
  have out2: "ws1 \<notin> snd ` set (iotDevices s2)"
    using only ne by (auto simp: io2 set_update_distinct [OF df])
  have l1: "listeners (sockets s1' ws1) \<noteq> None"
    using inv1' in1 by (auto simp: registry_inv_def)
  have nw1: "ws1 \<notin> snd ` set (webClients s1')"
    using registered_device_no_dashboard [OF inv1' assms(6)] .
  have "sockets s2 ws1 = sockets s1' ws1" "webClients s2 = webClients s1'"
    unfolding assms(8) accept_device [OF r] using ne by simp_all
  with l1 nw1 out2 have ret: "retired s2 ws1"
    by (simp add: retired_def)
  have op2: "readyState (sockets s2 ws2) = OPEN"
    unfolding assms(8) accept_device [OF r] by simp
  have push: "sockets (fst (post_control s2 deviceId command v ta tb)) ws2 =
           pushed (sockets s2 ws2) (Command command v ta)"
    using inv2 m2 op2 assms(9) by (rule post_control_pushes)
  have later: "distinct (map fst (iotDevices s3)) \<and>
            ws1 \<notin> snd ` set (iotDevices s3) \<and>
            sockets (fst (post_control s3 deviceId command v ta tb)) ws1 = sockets s3 ws1 \<and>
            (map_of (iotDevices s3) deviceId = Some ws2 \<and> readyState (sockets s3 ws2) = OPEN
               \<longrightarrow> sockets (fst (post_control s3 deviceId command v ta tb)) ws2 =
                     pushed (sockets s3 ws2) (Command command v ta))"
    if st: "step\<^sup>*\<^sup>* s2 s3" for s3
  proof -
    have inv3: "registry_inv s3" using st inv2 by (rule registry_inv_steps)
    then have d: "distinct (map fst (iotDevices s3))" by (simp add: registry_inv_def)
    have "retired s3 ws1" using st ret by (rule retired_steps)
    then have o: "ws1 \<notin> snd ` set (iotDevices s3)" "ws1 \<notin> snd ` set (webClients s3)"
      by (simp_all add: retired_def)
    from d o post_control_untouched [OF o] post_control_pushes [OF inv3 _ _ assms(9)]
    show ?thesis by blast
  qed
  from m1 m2 ne out2 push later show ?thesis by blast
qed

lemma same_identity_replaces_example:
  "iotDevices (accept scn_dashboard 2 (Some ''device'') (Some ''device_001'') ''-'' ''t3'')
     = [(''device_001'', 2)] \<and>
   map_of (iotDevices (accept scn_dashboard 2 (Some ''device'') (Some ''device_001'') ''-'' ''t3''))
     ''device_001'' = Some 2 \<and>
   sent (sockets (fst (post_control
       (accept scn_dashboard 2 (Some ''device'') (Some ''device_001'') ''-'' ''t3'')
       ''device_001'' ''led'' (JBool True) ''t4'' ''t5'')) 2) =
     [Config ''Connected to cloud server'' ''device_001'', Command ''led'' (JBool True) ''t4''] \<and>
   sent (sockets (fst (post_control
       (accept scn_dashboard 2 (Some ''device'') (Some ''device_001'') ''-'' ''t3'')
       ''device_001'' ''led'' (JBool True) ''t4'' ''t5'')) 0) =
     [Config ''Connected to cloud server'' ''device_001'']"
proof -
  let ?s2 = "accept scn_dashboard 2 (Some ''device'') (Some ''device_001'') ''-'' ''t3''"
  have fr0: "fresh (init ''t0'') 0"
    by (simp add: fresh_def init_def)
  have st: "step\<^sup>*\<^sup>* scn_device scn_dashboard"
    unfolding scn_dashboard_def
    by (rule r_into_rtranclp, rule step.connection)
       (simp add: fresh_def scn_device_eq init_def)
  have m: "map_of (iotDevices scn_dashboard) ''device_001'' = Some 0"
    by (simp add: scn_dashboard_eq scn_device_eq)
  have t: "map_of (iotDevices scn_device) ''device_001'' = Some 0 \<and>
         map_of (iotDevices ?s2) ''device_001'' = Some 2 \<and>
         (0::nat) \<noteq> 2 \<and>
         0 \<notin> snd ` set (iotDevices ?s2) \<and>
         sockets (fst (post_control ?s2 ''device_001'' ''led'' (JBool True) ''t4'' ''t5'')) 2 =
           pushed (sockets ?s2 2) (Command ''led'' (JBool True) ''t4'') \<and>
         (\<forall>s3. step\<^sup>*\<^sup>* ?s2 s3 \<longrightarrow>
            distinct (map fst (iotDevices s3)) \<and>
            0 \<notin> snd ` set (iotDevices s3) \<and>
            sockets (fst (post_control s3 ''device_001'' ''led'' (JBool True) ''t4'' ''t5'')) 0
              = sockets s3 0 \<and>
            (map_of (iotDevices s3) ''device_001'' = Some 2 \<and> readyState (sockets s3 2) = OPEN
               \<longrightarrow> sockets (fst (post_control s3 ''device_001'' ''led'' (JBool True)
                                   ''t4'' ''t5'')) 2 =
                     pushed (sockets s3 2) (Command ''led'' (JBool True) ''t4'')))"
    by (rule same_identity_replaces [OF reachable_init fr0 _ scn_device_def st m
          fresh_scn_dashboard_2 refl]) simp_all
  then have z: "sockets (fst (post_control ?s2 ''device_001'' ''led'' (JBool True) ''t4'' ''t5'')) 0
              = sockets ?s2 0"
    by blast
  have a: "iotDevices ?s2 = [(''device_001'', 2)]"
    by (simp add: accept_device scn_dashboard_eq scn_device_eq)
  have b: "sent (sockets ?s2 2) = [Config ''Connected to cloud server'' ''device_001'']"
    "sent (sockets ?s2 0) = [Config ''Connected to cloud server'' ''device_001'']"
    by (simp_all add: accept_device scn_dashboard_eq scn_device_eq)
  from t z a b show ?thesis by simp
qed

lemma scn_replaced_eq:
  "scn_replaced = scn_dashboard\<lparr>
       console := [LogDeviceConnected ''device_001'', LogWebConnected ''k3x9'',
                   LogDeviceConnected ''device_001''],
       iotDevices := [(''device_001'', 2)],
       registeredDevices :=
        [\<lparr>dev_id = ''device_001'', dev_name = ''Kitchen Sensor'', dev_type = ''sensor'',
          location = ''Kitchen'', online = True, lastSeen = Some ''t3''\<rparr>,
         \<lparr>dev_id = ''device_002'', dev_name = ''LED Controller'', dev_type = ''actuator'',
          location = ''Living Room'', online = False, lastSeen = None\<rparr>],
       sockets := (sockets scn_dashboard)(2 := \<lparr>readyState = OPEN,
          sent = [Config ''Connected to cloud server'' ''device_001''], closeCall = None,
          listeners = Some (DeviceListeners ''device_001'')\<rparr>)\<rparr>"
  by (simp add: scn_replaced_def accept_device) (simp add: scn_dashboard_eq scn_device_eq init_def)

lemma reachable_scn_replaced: "reachable scn_replaced"
  unfolding scn_replaced_def
  by (rule reachable_step [OF reachable_scn_dashboard step.connection])
     (rule fresh_scn_dashboard_2)

lemma reachable_scn_evicted: "reachable scn_evicted"
  unfolding scn_evicted_def
  by (rule reachable_step [OF reachable_scn_replaced step.closed])
     (simp add: scn_replaced_eq scn_dashboard_eq scn_device_eq)

lemma scn_evicted_facts:
  "iotDevices scn_evicted = []"
  "sockets scn_evicted 2 = sockets scn_replaced 2"
  "readyState (sockets scn_evicted 0) = CLOSED"
proof -
  have l: "listeners (sockets scn_replaced 0) = Some (DeviceListeners ''device_001'')"
    by (simp add: scn_replaced_eq scn_dashboard_eq scn_device_eq)
  show "iotDevices scn_evicted = []"
    by (simp add: scn_evicted_def emit_close_iotDevices l) (simp add: scn_replaced_eq)
  have nd: "\<not> open_dashboard scn_replaced 2"
    by (simp add: open_dashboard_def scn_replaced_eq scn_dashboard_eq)
  show "sockets scn_evicted 2 = sockets scn_replaced 2"
    unfolding scn_evicted_def
    using emit_close_device_sockets [OF reachable_registry_inv [OF reachable_scn_replaced] l,
            of "''t4''" "''t5''" 2] nd
    by simp
  show "readyState (sockets scn_evicted 0) = CLOSED"
    unfolding scn_evicted_def
    using emit_close_device_sockets [OF reachable_registry_inv [OF reachable_scn_replaced] l,
            of "''t4''" "''t5''" 0]
    by simp
qed

text \<open>
  C8. The claim is that the device connection registry holds at most one entry per
  identifier, that a second device connecting under an identity replaces the registration
  of the first, and that every command for that identity issued afterwards is pushed to the
  second connection only. The first two parts hold, and so does the third while the second
  socket stays registered (\<open>same_identity_replaces\<close>). The third fails once the
  connection of the first device ends: its listener deletes the registration of the
  identity, which is the second socket's by then. In \<open>scn_evicted\<close> the second
  socket is open and carries the device's listeners, the identity is no longer
  registered, and the command \<open>led\<close>, \<open>true\<close> is answered that the device is not
  connected; nothing is pushed to the second socket.
\<close>

theorem replaced_close_evicts_second:
  "reachable scn_evicted \<and>
   map_of (iotDevices scn_dashboard) ''device_001'' = Some 0 \<and>
   map_of (iotDevices scn_replaced) ''device_001'' = Some 2 \<and>
   readyState (sockets scn_evicted 0) = CLOSED \<and>
   readyState (sockets scn_evicted 2) = OPEN \<and>
   listeners (sockets scn_evicted 2) = Some (DeviceListeners ''device_001'') \<and>
   map_of (iotDevices scn_evicted) ''device_001'' = None \<and>
   snd (post_control scn_evicted ''device_001'' ''led'' (JBool True) ''t6'' ''t7'') =
     Inr (404, Failure ''Device device_001 is not connected'') \<and>
   sent (sockets (fst (post_control scn_evicted ''device_001'' ''led'' (JBool True) ''t6'' ''t7'')) 2)
     = [Config ''Connected to cloud server'' ''device_001'']"
proof -
  have a: "map_of (iotDevices scn_dashboard) ''device_001'' = Some 0"
    "map_of (iotDevices scn_replaced) ''device_001'' = Some 2"
    "sockets scn_replaced 2 = \<lparr>readyState = OPEN,
          sent = [Config ''Connected to cloud server'' ''device_001''], closeCall = None,
          listeners = Some (DeviceListeners ''device_001'')\<rparr>"
    by (simp_all add: scn_replaced_eq scn_dashboard_eq scn_device_eq)
  have n: "map_of (iotDevices scn_evicted) ''device_001'' = None"
    by (simp add: scn_evicted_facts(1))
  have p: "snd (post_control scn_evicted ''device_001'' ''led'' (JBool True) ''t6'' ''t7'') =
     Inr (404, Failure ''Device device_001 is not connected'') \<and>
     sockets (fst (post_control scn_evicted ''device_001'' ''led'' (JBool True) ''t6'' ''t7''))
       = sockets scn_evicted"
    using post_control_not_connected [of "JBool True" scn_evicted "''device_001''" "''led''"
            "''t6''" "''t7''"] n
    by simp
  from a n p reachable_scn_evicted scn_evicted_facts show ?thesis by simp
qed

section \<open>Sequences of merges\<close>

lemma merge_all_refines_spec:
  "k \<noteq> ''__proto__'' \<Longrightarrow>
   map_of (props (merge_all obj (map (\<lambda>(kvs, now). (JObj kvs, now)) calls))) k =
     spec_merge_all (map_of (props obj)) calls k"
proof (induction calls arbitrary: obj)
  case Nil
  then show ?case by (simp add: merge_all_def spec_merge_all_def)
next
  case (Cons call calls)
  obtain kvs now where c: "call = (kvs, now)" by (cases call)
  have agree: "spec_merge_all m1 calls k = spec_merge_all m2 calls k"
    if "\<And>k'. k' \<noteq> ''__proto__'' \<Longrightarrow> m1 k' = m2 k'" for m1 m2 :: "string \<rightharpoonup> jsval"
    using that Cons.prems
  proof (induction calls arbitrary: m1 m2)
    case Nil
    then show ?case by (simp add: spec_merge_all_def)
  next
    case (Cons a calls)
    have "spec_merge m1 a k' = spec_merge m2 a k'" if "k' \<noteq> ''__proto__''" for k'
      using Cons.prems(1) [OF that] by (simp add: spec_merge_def map_add_def split: option.splits)
    then have "spec_merge_all (spec_merge m1 a) calls k = spec_merge_all (spec_merge m2 a) calls k"
      using Cons.IH Cons.prems(2) by blast
    then show ?case by (simp add: spec_merge_all_def)
  qed
  have "map_of (props (merge_all obj (map (\<lambda>(kvs, now). (JObj kvs, now)) (call # calls)))) k =
        map_of (props (merge_all (merge_sensor_data obj (JObj kvs) now)
           (map (\<lambda>(kvs, now). (JObj kvs, now)) calls))) k"
    by (simp add: merge_all_def c)
  also have "\<dots> = spec_merge_all (map_of (props (merge_sensor_data obj (JObj kvs) now))) calls k"
    using Cons.IH [OF Cons.prems] .
  also have "\<dots> = spec_merge_all (spec_merge (map_of (props obj)) (kvs, now)) calls k"
    by (rule agree) (simp add: map_of_merge_sensor_data)
  also have "\<dots> = spec_merge_all (map_of (props obj)) (call # calls) k"
    by (simp add: spec_merge_all_def c)
  finally show ?case .
qed

lemma dom_spec_merge_all:
  "dom (spec_merge_all m calls) =
     dom m \<union> (\<Union>c \<in> set calls. fst ` set (fst c)) \<union> (if calls = [] then {} else {''lastUpdate''})"
proof (induction calls arbitrary: m)
  case Nil
  then show ?case by (simp add: spec_merge_all_def)
next
  case (Cons c calls)
  have "dom (spec_merge m c) = dom m \<union> fst ` set (fst c) \<union> {''lastUpdate''}"
    by (auto simp: spec_merge_def dom_map_of_conv_image_fst)
  moreover have "spec_merge_all m (c # calls) = spec_merge_all (spec_merge m c) calls"
    by (simp add: spec_merge_all_def)
  ultimately show ?case
    using Cons.IH [of "spec_merge m c"] by auto
qed

lemma lastUpdate_spec_merge_all:
  "calls \<noteq> [] \<Longrightarrow> spec_merge_all m calls ''lastUpdate'' = Some (JStr (snd (last calls)))"
proof (induction calls arbitrary: m)
  case Nil
  then show ?case by simp
next
  case (Cons c calls)
  then show ?case
    by (cases calls) (simp_all add: spec_merge_all_def spec_merge_def)
qed

text \<open>
  C3. The claim is that after any sequence of merges the snapshot holds every key ever
  merged, with its last value. The lemmas above prove it for every key but one. For the
  key \<open>__proto__\<close> it fails: merged into the initial state with the value 5, the key is
  not in the snapshot afterwards (the specification's merge would hold it with the value
  5); merged with an object as its value, the key is not in the snapshot either, and that
  object has become the prototype of \<open>deviceStates\<close>.
\<close>

theorem merge_proto_key_lost:
  "map_of (props (merge_all (deviceStates (init ''t0''))
       [(JObj [(''__proto__'', JNum 5)], ''t1'')])) ''__proto__'' = None \<and>
   spec_merge_all (map_of (props (deviceStates (init ''t0''))))
       [([(''__proto__'', JNum 5)], ''t1'')] ''__proto__'' = Some (JNum 5) \<and>
   map_of (props (merge_all (deviceStates (init ''t0''))
       [(JObj [(''__proto__'', JObj [(''led'', JBool True)])], ''t1'')])) ''__proto__'' = None \<and>
   proto (merge_all (deviceStates (init ''t0''))
       [(JObj [(''__proto__'', JObj [(''led'', JBool True)])], ''t1'')])
     = ObjectValue [(''led'', JBool True)]"
  by (simp add: merge_all_def merge_sensor_data_def Object_assign_def set_property_def
      has_own_def init_def spec_merge_all_def spec_merge_def)

section \<open>Commands to a connected device\<close>

lemma post_control_connected:
  assumes "map_of (iotDevices s) i = Some ws" and "readyState (sockets s ws) = OPEN"
    and "ToString_defined v"
  shows "post_control s i c v t1 t2 =
     (let s1 = ws_send (console_log s (LogWebCommand i c v)) ws (Command c v t1)
      in case hasOwnProperty (deviceStates s) c of
           Inl e \<Rightarrow> (s1, Inl e)
         | Inr b \<Rightarrow>
             (broadcastToWebClients
                (if b then s1\<lparr>deviceStates := set_property (deviceStates s) c v\<rparr> else s1)
                (StateUpdate i c v t2),
              Inr (200, Success (''Command sent to '' @ i) c v)))"
  using assms by (simp add: post_control_def Let_def split: sum.splits)

lemma post_control_delivers:
  assumes inv: "registry_inv s" and m: "map_of (iotDevices s) i = Some ws"
    and op: "readyState (sockets s ws) = OPEN"
    and h: "hasOwnProperty (deviceStates s) c = Inr True"
    and s': "s' = fst (post_control s i c v t1 t2)"
    and pr: "ToString_defined v"
  shows "snd (post_control s i c v t1 t2) = Inr (200, Success (''Command sent to '' @ i) c v) \<and>
         snapshot s' c = Some v \<and>
         (\<forall>k. k \<noteq> c \<longrightarrow> snapshot s' k = snapshot s k) \<and>
         (\<forall>w. sockets s' w =
            (if w = ws then pushed (sockets s ws) (Command c v t1)
             else if open_dashboard s w then pushed (sockets s w) (StateUpdate i c v t2)
             else sockets s w))"
proof -
  let ?s1 = "ws_send (console_log s (LogWebCommand i c v)) ws (Command c v t1)"
  let ?s2 = "?s1\<lparr>deviceStates := set_property (deviceStates s) c v\<rparr>"
  have nw: "ws \<notin> snd ` set (webClients s)"
    using inv m by (rule registered_device_no_dashboard)
  have eq: "post_control s i c v t1 t2 =
      (broadcastToWebClients ?s2 (StateUpdate i c v t2),
       Inr (200, Success (''Command sent to '' @ i) c v))"
    by (simp add: post_control_connected [OF m op pr] h Let_def)
  have d: "distinct (map snd (webClients ?s2))"
    using inv by (simp add: registry_inv_def)
  have od: "open_dashboard ?s2 w = open_dashboard s w" for w
    using nw by (auto simp: open_dashboard_def ws_send_sockets)
  have own: "has_own (deviceStates s) c"
    using h by (simp add: hasOwnProperty_def split: if_splits)
  have sk: "\<forall>w. sockets s' w =
            (if w = ws then pushed (sockets s ws) (Command c v t1)
             else if open_dashboard s w then pushed (sockets s w) (StateUpdate i c v t2)
             else sockets s w)"
    unfolding s' eq fst_conv broadcast_sockets [OF d] od
    using nw op by (auto simp: ws_send_sockets open_dashboard_def)
  have st: "deviceStates s' = (deviceStates s)\<lparr>props := AList.update c v (props (deviceStates s))\<rparr>"
    unfolding s' eq fst_conv by (simp add: set_property_own [OF own])
  have sn: "snapshot s' c = Some v \<and> (\<forall>k. k \<noteq> c \<longrightarrow> snapshot s' k = snapshot s k)"
    by (simp add: snapshot_eq st AList.update_conv')
  from eq sk sn show ?thesis by simp
qed

lemma post_control_keeps_lastUpdate:
  assumes "c \<noteq> ''lastUpdate''"
  shows "snapshot (fst (post_control s i c v t1 t2)) ''lastUpdate'' = snapshot s ''lastUpdate''"
proof -
  have "map_of (props (set_property obj c v)) ''lastUpdate'' = map_of (props obj) ''lastUpdate''"
    for obj
    using assms by (simp add: map_of_set_property)
  then show ?thesis
    by (simp add: post_control_def Let_def snapshot_eq split: option.splits sum.splits)
qed

lemma scn_shadowed_eq:
  "scn_shadowed = scn_dashboard\<lparr>
     console := console scn_dashboard @ [LogData ''device_001'' shadowing_report],
     deviceStates := \<lparr>props =
           [(''temperature'', JNum (49 / 2)),
            (''humidity'', JNum 68),
            (''led'', JBool False),
            (''pump'', JBool False),
            (''fanSpeed'', JNum 45),
            (''power'', JNum 156),
            (''lastUpdate'', JStr ''t3''),
            (''hasOwnProperty'', JNum 1)],
         proto = ObjectPrototype\<rparr>,
     sockets := (sockets scn_dashboard)(1 := pushed (sockets scn_dashboard 1)
        (SensorUpdate ''device_001'' (JObj [(''hasOwnProperty'', JNum 1)]) ''t4''))\<rparr>"
proof -
  have l: "listeners (sockets scn_dashboard 0) = Some (DeviceListeners ''device_001'')"
    by (simp add: scn_dashboard_eq scn_device_eq)
  have ty: "get_field shadowing_report ''type'' = Inr (JStr ''sensorData'')"
    and da: "get_field shadowing_report ''data'' = Inr (JObj [(''hasOwnProperty'', JNum 1)])"
    by (simp_all add: shadowing_report_def)
  have me: "merge_sensor_data (deviceStates scn_dashboard) (JObj [(''hasOwnProperty'', JNum 1)]) ''t3''
      = \<lparr>props =
           [(''temperature'', JNum (49 / 2)),
            (''humidity'', JNum 68),
            (''led'', JBool False),
            (''pump'', JBool False),
            (''fanSpeed'', JNum 45),
            (''power'', JNum 156),
            (''lastUpdate'', JStr ''t3''),
            (''hasOwnProperty'', JNum 1)],
         proto = ObjectPrototype\<rparr>"
    by (simp add: merge_sensor_data_def Object_assign_def set_property_plain
        scn_dashboard_eq scn_device_eq init_def)
  show ?thesis
    unfolding scn_shadowed_def emit_message_sensorData [OF l ty da] me
    by (simp add: broadcastToWebClients_def console_log_def ws_send_def pushed_def
        scn_dashboard_eq scn_device_eq)
qed

lemma reachable_scn_shadowed: "reachable scn_shadowed"
  unfolding scn_shadowed_def
  by (rule reachable_step [OF reachable_scn_dashboard step.message])
     (simp add: scn_dashboard_eq scn_device_eq)

lemma has_own_post_control:
  "has_own (deviceStates s) k \<Longrightarrow> has_own (deviceStates (fst (post_control s i c v t1 t2))) k"
  by (simp add: post_control_def Let_def has_own_set_property split: option.splits sum.splits)

lemma has_own_emit_message:
  "has_own (deviceStates s) k \<Longrightarrow> has_own (deviceStates (emit_message s ws p t1 t2)) k"
  by (simp add: emit_message_def on_device_message_def Let_def has_own_merge_sensor_data
      split: option.splits listener.splits sum.splits)

lemma deviceStates_accept [simp]:
  "deviceStates (accept s ws clientType deviceId clientId now) = deviceStates s"
  by (cases "device_request clientType deviceId"; cases "clientType = Some ''web''")
     (simp_all add: accept_device accept_web accept_rejected)

lemma deviceStates_emit_close [simp]:
  "deviceStates (emit_close s ws t1 t2) = deviceStates s"
  by (simp add: emit_close_def on_device_close_def on_web_close_def Let_def
      split: option.splits listener.splits)

lemma has_own_step:
  assumes "step s s'" and "has_own (deviceStates s) k"
  shows "has_own (deviceStates s') k"
  using assms
  by (induction rule: step.induct) (simp_all add: has_own_post_control has_own_emit_message)

lemma has_own_steps:
  assumes "step\<^sup>*\<^sup>* s s'" and "has_own (deviceStates s) k"
  shows "has_own (deviceStates s') k"
  using assms by (induction rule: rtranclp_induct) (auto intro: has_own_step)

lemma reachable_has_led: "reachable s \<Longrightarrow> has_own (deviceStates s) ''led''"
proof -
  have "has_own (deviceStates (init t0)) ''led''" for t0
    by (simp add: has_own_def init_def)
  then show "reachable s \<Longrightarrow> ?thesis"
    unfolding reachable_def using has_own_steps by blast
qed

lemma post_control_led:
  assumes "reachable s" and "map_of (iotDevices s) i = Some ws"
    and "readyState (sockets s ws) = OPEN"
    and "\<not> has_own (deviceStates s) ''hasOwnProperty''"
    and "inherits_hasOwnProperty (proto (deviceStates s))"
    and "s' = fst (post_control s i ''led'' (JBool True) t1 t2)"
  shows "snd (post_control s i ''led'' (JBool True) t1 t2) =
           Inr (200, Success (''Command sent to '' @ i) ''led'' (JBool True)) \<and>
         snapshot s' ''led'' = Some (JBool True) \<and>
         (\<forall>k. k \<noteq> ''led'' \<longrightarrow> snapshot s' k = snapshot s k) \<and>
         (\<forall>w. sockets s' w =
            (if w = ws then pushed (sockets s ws) (Command ''led'' (JBool True) t1)
             else if open_dashboard s w
               then pushed (sockets s w) (StateUpdate i ''led'' (JBool True) t2)
             else sockets s w))"
proof -
  have h: "hasOwnProperty (deviceStates s) ''led'' = Inr True"
    using assms(4,5) reachable_has_led [OF assms(1)] by (simp add: hasOwnProperty_def)
  show ?thesis
    by (rule post_control_delivers [OF reachable_registry_inv [OF assms(1)] assms(2,3) h assms(6)])
       simp
qed

text \<open>
  C1. The claim is that a command \<open>led\<close>, \<open>true\<close> for a connected device whose socket
  is open reaches the device, sets \<open>led\<close> in the shared state, is broadcast to the
  dashboards and is answered with success. \<open>post_control_led\<close> above proves it for the
  reachable states in which \<^verbatim>\<open>deviceStates.hasOwnProperty\<close> is the built-in method.
  It fails in the state reached when \<open>device_001\<close> has reported a reading with a field
  named \<open>hasOwnProperty\<close>: the device is connected and its socket is open, the command
  frame is pushed to it, then the handler raises a TypeError; \<open>led\<close> is still
  \<open>false\<close>, the open dashboard gets no frame, and no success is returned.
\<close>

theorem post_control_led_raises:
  "reachable scn_shadowed \<and>
   map_of (iotDevices scn_shadowed) ''device_001'' = Some 0 \<and>
   readyState (sockets scn_shadowed 0) = OPEN \<and>
   snapshot scn_shadowed ''led'' = Some (JBool False) \<and>
   snd (post_control scn_shadowed ''device_001'' ''led'' (JBool True) ''t5'' ''t6'') = Inl TypeError \<and>
   snapshot (fst (post_control scn_shadowed ''device_001'' ''led'' (JBool True) ''t5'' ''t6''))
     ''led'' = Some (JBool False) \<and>
   open_dashboard scn_shadowed 1 \<and>
   sent (sockets (fst (post_control scn_shadowed ''device_001'' ''led'' (JBool True) ''t5'' ''t6'')) 1)
     = sent (sockets scn_shadowed 1) \<and>
   sent (sockets (fst (post_control scn_shadowed ''device_001'' ''led'' (JBool True) ''t5'' ''t6'')) 0)
     = sent (sockets scn_shadowed 0) @ [Command ''led'' (JBool True) ''t5'']"
proof -
  have m: "map_of (iotDevices scn_shadowed) ''device_001'' = Some 0"
    and op: "readyState (sockets scn_shadowed 0) = OPEN"
    and od: "open_dashboard scn_shadowed 1"
    and led: "snapshot scn_shadowed ''led'' = Some (JBool False)"
    by (simp_all add: scn_shadowed_eq scn_dashboard_eq scn_device_eq open_dashboard_def
        snapshot_eq)
  have h: "hasOwnProperty (deviceStates scn_shadowed) ''led'' = Inl TypeError"
    by (simp add: scn_shadowed_eq hasOwnProperty_def has_own_def)
  have eq: "post_control scn_shadowed ''device_001'' ''led'' (JBool True) ''t5'' ''t6'' =
      (ws_send (console_log scn_shadowed (LogWebCommand ''device_001'' ''led'' (JBool True))) 0
         (Command ''led'' (JBool True) ''t5''), Inl TypeError)"
    by (simp add: post_control_connected [OF m op] h)
  show ?thesis
    unfolding eq using m op od led reachable_scn_shadowed
    by (simp add: snapshot_eq ws_send_sockets)
qed

text \<open>
  C5. The claim is that every write to the shared state refreshes \<open>lastUpdate\<close>. A merge
  of a sensor report does (\<open>lastUpdate_merge_sensor_data\<close>). A command does not
  (\<open>post_control_keeps_lastUpdate\<close>): the command \<open>led\<close>, \<open>true\<close> issued at time
  \<open>t3\<close> to the connected \<open>device_001\<close> succeeds and changes \<open>led\<close> from \<open>false\<close> to
  \<open>true\<close>, and \<open>lastUpdate\<close> is still the time \<open>t0\<close> of the server's start.
\<close>

theorem post_control_stale_lastUpdate:
  "snd (post_control scn_dashboard ''device_001'' ''led'' (JBool True) ''t3'' ''t4'') =
     Inr (200, Success ''Command sent to device_001'' ''led'' (JBool True)) \<and>
   snapshot scn_dashboard ''led'' = Some (JBool False) \<and>
   snapshot (fst (post_control scn_dashboard ''device_001'' ''led'' (JBool True) ''t3'' ''t4''))
     ''led'' = Some (JBool True) \<and>
   snapshot scn_dashboard ''lastUpdate'' = Some (JStr ''t0'') \<and>
   snapshot (fst (post_control scn_dashboard ''device_001'' ''led'' (JBool True) ''t3'' ''t4''))
     ''lastUpdate'' = Some (JStr ''t0'')"
proof -
  have m: "map_of (iotDevices scn_dashboard) ''device_001'' = Some 0"
    and op: "readyState (sockets scn_dashboard 0) = OPEN"
    by (simp_all add: scn_dashboard_eq scn_device_eq)
  have h: "hasOwnProperty (deviceStates scn_dashboard) ''led'' = Inr True"
    by (simp add: scn_dashboard_eq scn_device_eq init_def hasOwnProperty_def has_own_def)
  have eq: "post_control scn_dashboard ''device_001'' ''led'' (JBool True) ''t3'' ''t4'' =
     (broadcastToWebClients
        ((ws_send (console_log scn_dashboard (LogWebCommand ''device_001'' ''led'' (JBool True))) 0
            (Command ''led'' (JBool True) ''t3''))
         \<lparr>deviceStates := set_property (deviceStates scn_dashboard) ''led'' (JBool True)\<rparr>)
        (StateUpdate ''device_001'' ''led'' (JBool True) ''t4''),
      Inr (200, Success ''Command sent to device_001'' ''led'' (JBool True)))"
    by (simp add: post_control_connected [OF m op] h Let_def)
  have st: "props (deviceStates scn_dashboard) = props (deviceStates (init ''t0''))"
    by (simp add: scn_dashboard_eq scn_device_eq)
  have own: "has_own (deviceStates scn_dashboard) ''led''"
    by (simp add: has_own_def st) (simp add: init_def)
  show ?thesis
    unfolding eq
    by (simp add: snapshot_eq set_property_own [OF own] st) (simp add: init_def)
qed

end
